theory Spec2Isabelle
  imports Complex_Main
begin

section \<open>Shared vocabulary\<close>

text \<open>
  Parameter names. The Python code uses the strings \<^verbatim>\<open>'dx'\<close>, \<^verbatim>\<open>'dy'\<close>, \<^verbatim>\<open>'phi'\<close>,
  \<^verbatim>\<open>'total_cts'\<close>, \<^verbatim>\<open>'sigma'\<close>, \<^verbatim>\<open>'f_p' + str(i)\<close>, \<^verbatim>\<open>'pattern_' + str(i)\<close> and
  \<^verbatim>\<open>'sub_pixels'\<close> as dictionary keys; \<open>F_p i\<close> stands for \<^verbatim>\<open>'f_p' + str(i)\<close> and
  \<open>Pattern i\<close> for \<^verbatim>\<open>'pattern_' + str(i)\<close>.
\<close>

datatype key = Dx | Dy | Phi | Total_cts | Sigma | F_p nat | Pattern nat | Sub_pixels

text \<open>
  Exceptions are values. \<open>ExternalError\<close> is any exception raised inside a collaborator that
  is not part of the sources (the \<^verbatim>\<open>Fit\<close> class, SciPy, numdifftools).
  \<open>FloatingPointError\<close> marks a NumPy operation outside the domain of real arithmetic
  (a zero divisor, a logarithm or square root of a non-positive number): NumPy itself only
  warns there and yields \<^verbatim>\<open>inf\<close>/\<^verbatim>\<open>nan\<close> (or masks the cell), which real numbers cannot
  express, so the model stops with this value instead of inventing a number.
\<close>

datatype error = ValueError | IndexError | AssertionError | TypeError | AttributeError
  | ZeroDivisionError | LinAlgError | FloatingPointError | ExternalError

section \<open>\<^verbatim>\<open>pyfdd/core/fitmanager.py\<close>: the multi-site orchestrator\<close>

subsection \<open>Data\<close>

text \<open>
  What \<^verbatim>\<open>FitManager\<close> reads from its \<^verbatim>\<open>DataPattern\<close>: the detected centre and angle,
  the sum of the (masked) count matrix and the flattened mask (\<open>True\<close> = masked).
\<close>

record datapattern =
  center :: "real \<times> real"
  angle :: real
  pattern_sum :: real
  data_mask :: "bool list"

text \<open>The fields of \<^verbatim>\<open>Fit.results\<close> that \<^verbatim>\<open>FitManager\<close> reads.\<close>

record fit_results =
  res_fun :: real
  res_success :: bool
  res_x :: "real list"

text \<open>
  A \<^verbatim>\<open>Fit\<close> object as \<^verbatim>\<open>_build_fits_obj\<close> configures it: the site indices and, in the
  order of \<^verbatim>\<open>parameter_keys\<close>, the scale, initial value and fixed flag of every parameter.
  \<open>results\<close> is \<open>None\<close> until the minimisation has stored its outcome.
\<close>

record fit =
  sites_idx :: "int list"
  fit_scale :: "real list"
  fit_p0 :: "real list"
  fit_fix :: "bool list"
  results :: "fit_results option"

text \<open>
  One row of the horizontal table (the columns used below), and one row of the vertical
  table, of which only the site column \<^verbatim>\<open>p\<close> is kept.
\<close>

record hrow =
  h_value :: real
  h_success :: bool
  h_p :: "int list"

record vrow =
  v_p :: int

datatype cost = Chi2 | Ml

record fitmanager =
  min_value :: "real option"
  best_fit :: "fit option"
  last_fit :: "fit option"
  dp_pattern :: datapattern
  current_fit_obj :: "fit option"
  n_sites :: nat
  cost_function :: cost
  scale_cfg :: "key \<Rightarrow> real"
  p_initial_values :: "key \<rightharpoonup> real"
  p_fixed_values :: "key \<rightharpoonup> real"
  df_horizontal :: "hrow list"
  df_vertical :: "vrow list"

text \<open>
  The collaborators that are not in the sources, as parameters:
  \<^item> \<open>minimize_cost_function\<close>: \<^verbatim>\<open>Fit.minimize_cost_function\<close>, returning the results it
    stores in the \<^verbatim>\<open>Fit\<close> or the exception it raises;
  \<^item> \<open>get_std_from_hessian\<close>: \<^verbatim>\<open>Fit.get_std_from_hessian\<close>, \<open>Some e\<close> when it raises;
  \<^item> \<open>lib_size\<close>: the length of \<^verbatim>\<open>lib.dict_2dl["Spectrums"]\<close>;
  \<^item> \<open>sim_mask\<close>: the mask of the background-only pattern that \<^verbatim>\<open>PatternCreator\<close> makes at
    an orientation \<open>(dx, dy, phi)\<close> with \<^verbatim>\<open>mask_out_of_range=True\<close>.
\<close>

record env =
  minimize_cost_function :: "cost \<Rightarrow> fit \<Rightarrow> error + fit_results"
  get_std_from_hessian :: "fit \<Rightarrow> error option"
  lib_size :: nat
  sim_mask :: "real \<Rightarrow> real \<Rightarrow> real \<Rightarrow> bool list"

subsection \<open>Initial values\<close>

text \<open>\<^verbatim>\<open>compute_parameter_keys\<close>: the five base keys, then one fraction key per site.\<close>

definition compute_parameter_keys :: "nat \<Rightarrow> key list" where
  "compute_parameter_keys n = [Dx, Dy, Phi, Total_cts, Sigma] @ map (\<lambda>i. F_p (i + 1)) [0..<n]"

text \<open>
  One iteration of the loop of \<^verbatim>\<open>compute_initial_fit_values\<close>: the entry appended to
  \<^verbatim>\<open>p0\<close> and the one appended to \<^verbatim>\<open>p_fix\<close> for a key.
\<close>

definition initial_entry ::
  "datapattern \<Rightarrow> nat \<Rightarrow> (key \<rightharpoonup> real) \<Rightarrow> (key \<rightharpoonup> real) \<Rightarrow> key \<Rightarrow> real \<times> bool" where
  "initial_entry dp n p_fixed p_initial k =
     (case p_fixed k of
        Some v \<Rightarrow> (v, True)
      | None \<Rightarrow>
          (case p_initial k of
             Some v \<Rightarrow> (v, False)
           | None \<Rightarrow>
               (if k = Dx then (fst (center dp), False)
                else if k = Dy then (snd (center dp), False)
                else if k = Phi then (angle dp, False)
                else if k = Total_cts then (pattern_sum dp, True)
                else if k = Sigma then (1 / 10, True)
                else (min (15 / 100) ((1 / 2) / real n), False))))"

definition compute_initial_fit_values ::
  "datapattern \<Rightarrow> nat \<Rightarrow> (key \<rightharpoonup> real) \<Rightarrow> (key \<rightharpoonup> real) \<Rightarrow> real list \<times> bool list" where
  "compute_initial_fit_values dp n p_fixed p_initial =
     (let es = map (initial_entry dp n p_fixed p_initial) (compute_parameter_keys n)
      in (map fst es, map snd es))"

text \<open>
  The loop of \<^verbatim>\<open>_get_initial_values\<close> that overwrites the initial values with the last
  result vector: \<open>i\<close> is \<^verbatim>\<open>p0_last_i\<close>, \<open>niv\<close> is \<^verbatim>\<open>new_initial_values\<close>. Reading
  \<^verbatim>\<open>p0_last\<close> past its end raises \<^verbatim>\<open>IndexError\<close>.
\<close>

fun seed_loop ::
  "key list \<Rightarrow> (key \<rightharpoonup> real) \<Rightarrow> real list \<Rightarrow> nat \<Rightarrow> (key \<rightharpoonup> real) \<Rightarrow> error + (key \<rightharpoonup> real)" where
  "seed_loop [] p_fixed p0_last i niv = Inr niv"
| "seed_loop (k # ks) p_fixed p0_last i niv =
     (if p_fixed k \<noteq> None then seed_loop ks p_fixed p0_last i niv
      else if i < length p0_last
        then seed_loop ks p_fixed p0_last (i + 1) (niv(k \<mapsto> p0_last ! i + 1 / 100000))
        else Inl IndexError)"

text \<open>
  \<^verbatim>\<open>p0_pass\<close> of \<^verbatim>\<open>_get_initial_values\<close>. \<^verbatim>\<open>last_fit.results\<close> is subscripted only when the
  first two conjuncts hold; subscripting \<^verbatim>\<open>None\<close> raises \<^verbatim>\<open>TypeError\<close>.
\<close>

definition p0_pass :: "fitmanager \<Rightarrow> bool \<Rightarrow> error + bool" where
  "p0_pass m pass_results =
     (if \<not> pass_results then Inr False
      else case last_fit m of
        None \<Rightarrow> Inr False
      | Some lf \<Rightarrow> (case results lf of None \<Rightarrow> Inl TypeError | Some r \<Rightarrow> Inr (res_success r)))"

definition get_initial_values :: "fitmanager \<Rightarrow> bool \<Rightarrow> error + (real list \<times> bool list)" where
  "get_initial_values m pass_results =
     (case p0_pass m pass_results of
        Inl e \<Rightarrow> Inl e
      | Inr False \<Rightarrow>
          Inr (compute_initial_fit_values (dp_pattern m) (n_sites m)
                 (p_fixed_values m) (p_initial_values m))
      | Inr True \<Rightarrow>
          (case seed_loop (compute_parameter_keys (n_sites m)) (p_fixed_values m)
                  (res_x (the (results (the (last_fit m))))) 0 (p_initial_values m) of
             Inl e \<Rightarrow> Inl e
           | Inr niv \<Rightarrow>
               Inr (compute_initial_fit_values (dp_pattern m) (n_sites m)
                      (p_fixed_values m) niv)))"

subsection \<open>Building and running one fit\<close>

text \<open>
  \<^verbatim>\<open>10 ** int(math.log10(s))\<close>: \<^verbatim>\<open>int\<close> truncates towards zero, and a negative exponent
  gives the reciprocal power.
\<close>

definition counts_ordofmag :: "real \<Rightarrow> real" where
  "counts_ordofmag s =
     (let l = log 10 s; z = (if 0 \<le> l then \<lfloor>l\<rfloor> else \<lceil>l\<rceil>)
      in if 0 \<le> z then 10 ^ nat z else 1 / 10 ^ nat (- z))"

text \<open>
  \<^verbatim>\<open>_get_scale_values\<close>. \<^verbatim>\<open>math.log10\<close> raises \<^verbatim>\<open>ValueError\<close> on a non-positive argument.
\<close>

fun get_scale_values_loop :: "fitmanager \<Rightarrow> key list \<Rightarrow> real list \<Rightarrow> error + real list" where
  "get_scale_values_loop m [] scale = Inr scale"
| "get_scale_values_loop m (k # ks) scale =
     (if k = Total_cts then
        (case cost_function m of
           Chi2 \<Rightarrow>
             (if pattern_sum (dp_pattern m) \<le> 0 then Inl ValueError
              else get_scale_values_loop m ks
                     (scale @ [counts_ordofmag (pattern_sum (dp_pattern m)) * scale_cfg m k]))
         | Ml \<Rightarrow> get_scale_values_loop m ks (scale @ [- 1]))
      else get_scale_values_loop m ks (scale @ [scale_cfg m k]))"

definition get_scale_values :: "fitmanager \<Rightarrow> error + real list" where
  "get_scale_values m = get_scale_values_loop m (compute_parameter_keys (n_sites m)) []"

text \<open>
  \<^verbatim>\<open>_build_fits_obj\<close>: the initial values first, then the scale. The constructor and the
  setters of \<^verbatim>\<open>Fit\<close> only store what they are given; bounds, sub-pixels and fit options are
  handed over unchanged and left out.
\<close>

definition build_fits_obj :: "fitmanager \<Rightarrow> int list \<Rightarrow> bool \<Rightarrow> error + fit" where
  "build_fits_obj m sites pass_results =
     (case get_initial_values m pass_results of
        Inl e \<Rightarrow> Inl e
      | Inr (p0, p0_fix) \<Rightarrow>
          (case get_scale_values m of
             Inl e \<Rightarrow> Inl e
           | Inr scale \<Rightarrow>
               Inr \<lparr>sites_idx = sites, fit_scale = scale, fit_p0 = p0, fit_fix = p0_fix,
                    results = None\<rparr>))"

text \<open>
  \<^verbatim>\<open>lib.dict_2dl["Spectrums"][patt_num - 1]\<close>: a Python list subscript, valid from
  \<open>- n\<close> to \<open>n - 1\<close>.
\<close>

definition spectrum_ok :: "env \<Rightarrow> int \<Rightarrow> bool" where
  "spectrum_ok ev patt_num =
     (- int (lib_size ev) \<le> patt_num - 1 \<and> patt_num - 1 < int (lib_size ev))"

text \<open>
  \<^verbatim>\<open>_fill_horizontal_results_dict\<close> and \<^verbatim>\<open>_fill_vertical_results_dict\<close>: one row for the
  combination, and one row per site. Both read \<^verbatim>\<open>ft.results\<close> and look every site up in
  the library before they append.
\<close>

definition fill_horizontal_results_dict ::
  "env \<Rightarrow> fit \<Rightarrow> int list \<Rightarrow> fitmanager \<Rightarrow> error + fitmanager" where
  "fill_horizontal_results_dict ev ft sites m =
     (case results ft of
        None \<Rightarrow> Inl TypeError
      | Some r \<Rightarrow>
          (if \<exists>s \<in> set (take (n_sites m) sites). \<not> spectrum_ok ev s then Inl IndexError
           else Inr (m\<lparr>df_horizontal := df_horizontal m @
                  [\<lparr>h_value = res_fun r, h_success = res_success r,
                    h_p = take (n_sites m) sites\<rparr>]\<rparr>)))"

definition fill_vertical_results_dict ::
  "env \<Rightarrow> fit \<Rightarrow> int list \<Rightarrow> fitmanager \<Rightarrow> error + fitmanager" where
  "fill_vertical_results_dict ev ft sites m =
     (case results ft of
        None \<Rightarrow> Inl TypeError
      | Some r \<Rightarrow>
          (if \<exists>s \<in> set (take (n_sites m) sites). \<not> spectrum_ok ev s then Inl IndexError
           else Inr (m\<lparr>df_vertical := df_vertical m @
                  map (\<lambda>s. \<lparr>v_p = s\<rparr>)
                    (take (n_sites m) sites)\<rparr>)))"

text \<open>
  The end of \<^verbatim>\<open>_single_fit\<close>: keep the best fit, remember the last one, drop the handle.
  \<open>f\<close> is \<^verbatim>\<open>current_fit_obj.results['fun']\<close>.
\<close>

definition keep_best :: "fit \<Rightarrow> real \<Rightarrow> fitmanager \<Rightarrow> fitmanager" where
  "keep_best ft f m =
     (let m1 = (case min_value m of
                  None \<Rightarrow> m\<lparr>best_fit := Some ft, min_value := Some f\<rparr>
                | Some mv \<Rightarrow>
                    (if f < mv then m\<lparr>best_fit := Some ft, min_value := Some f\<rparr> else m))
      in m1\<lparr>last_fit := Some ft, current_fit_obj := None\<rparr>)"

text \<open>
  \<^verbatim>\<open>_single_fit\<close>. The result is the exception that leaves the method, if any, and the
  manager as the method left it. Site indices are integers by type, so of the checks on
  \<^verbatim>\<open>sites\<close> only the length check remains. Printing is left out.
\<close>

definition single_fit ::
  "env \<Rightarrow> bool \<Rightarrow> bool \<Rightarrow> int list \<Rightarrow> fitmanager \<Rightarrow> error option \<times> fitmanager" where
  "single_fit ev get_errors pass_results sites m =
     (if length sites \<noteq> n_sites m then (Some ValueError, m)
      else case build_fits_obj m sites pass_results of
        Inl e \<Rightarrow> (Some e, m)
      | Inr ft0 \<Rightarrow>
          (let m1 = m\<lparr>current_fit_obj := Some ft0\<rparr> in
           case minimize_cost_function ev (cost_function m) ft0 of
             Inl e \<Rightarrow> (Some e, m1)
           | Inr r \<Rightarrow>
               (let ft = ft0\<lparr>results := Some r\<rparr>; m2 = m1\<lparr>current_fit_obj := Some ft\<rparr> in
                case (if get_errors then get_std_from_hessian ev ft else None) of
                  Some e \<Rightarrow> (Some e, m2)
                | None \<Rightarrow>
                    (case fill_horizontal_results_dict ev ft sites m2 of
                       Inl e \<Rightarrow> (Some e, m2)
                     | Inr m3 \<Rightarrow>
                         (case fill_vertical_results_dict ev ft sites m3 of
                            Inl e \<Rightarrow> (Some e, m3)
                          | Inr m4 \<Rightarrow> (None, keep_best ft (res_fun r) m4))))))"

subsection \<open>The sweep\<close>

text \<open>
  A Python \<^verbatim>\<open>for\<close> loop whose body may raise: the first exception ends the loop and
  leaves it.
\<close>

fun for_each ::
  "('a \<Rightarrow> 's \<Rightarrow> error option \<times> 's) \<Rightarrow> 'a list \<Rightarrow> 's \<Rightarrow> error option \<times> 's" where
  "for_each body [] m = (None, m)"
| "for_each body (s # ss) m =
     (case body s m of
        (Some e, m') \<Rightarrow> (Some e, m')
      | (None, m') \<Rightarrow> for_each body ss m')"

text \<open>
  \<^verbatim>\<open>recursive_call\<close>, the closure of \<^verbatim>\<open>run_fits\<close>; \<open>fit1\<close> is the call of
  \<^verbatim>\<open>_single_fit\<close> at the leaves.
\<close>

fun recursive_call ::
  "(int list \<Rightarrow> 's \<Rightarrow> error option \<times> 's) \<Rightarrow> int list list \<Rightarrow> int list \<Rightarrow> 's
     \<Rightarrow> error option \<times> 's" where
  "recursive_call fit1 [] sites m = fit1 sites m"
| "recursive_call fit1 (p # ps) sites m =
     for_each (\<lambda>s. recursive_call fit1 ps (sites @ [s])) p m"

text \<open>
  \<^verbatim>\<open>is_datapattern_inrange\<close> without an argument: the orientation comes from
  \<^verbatim>\<open>_get_initial_values()\<close>, and the generator, built on the data's mesh, returns a mask of
  the data's shape. \<^verbatim>\<open>not np.any(~data_mask == sim_mask)\<close>.
\<close>

definition is_datapattern_inrange :: "env \<Rightarrow> fitmanager \<Rightarrow> error + bool" where
  "is_datapattern_inrange ev m =
     (case get_initial_values m False of
        Inl e \<Rightarrow> Inl e
      | Inr (ov, _) \<Rightarrow>
          Inr (\<not> list_ex (\<lambda>(d, s). (\<not> d) = s)
                 (zip (data_mask (dp_pattern m)) (sim_mask ev (ov ! 0) (ov ! 1) (ov ! 2)))))"

text \<open>An argument of \<^verbatim>\<open>run_fits\<close> or \<^verbatim>\<open>run_single_fit\<close>: one index or a sequence of them.\<close>

datatype arg = Scalar int | Seq "int list"

text \<open>\<^verbatim>\<open>np.atleast_1d(np.array(ar))\<close>\<close>

fun atleast_1d :: "arg \<Rightarrow> int list" where
  "atleast_1d (Scalar i) = [i]"
| "atleast_1d (Seq xs) = xs"

text \<open>
  \<^verbatim>\<open>run_fits\<close>. The warning is not a value of the model; the \<^verbatim>\<open>raise ValueError\<close> that
  follows it is. The bare \<^verbatim>\<open>except\<close> encloses the whole call of \<^verbatim>\<open>recursive_call\<close>.
\<close>

definition run_fits ::
  "env \<Rightarrow> arg list \<Rightarrow> bool \<Rightarrow> bool \<Rightarrow> fitmanager \<Rightarrow> error option \<times> fitmanager" where
  "run_fits ev args pass_results get_errors m =
     (case is_datapattern_inrange ev m of
        Inl e \<Rightarrow> (Some e, m)
      | Inr False \<Rightarrow> (Some ValueError, m)
      | Inr True \<Rightarrow>
          (let patterns_list = map atleast_1d args in
           if \<not> length patterns_list \<ge> 1 then (Some AssertionError, m)
           else case recursive_call (single_fit ev get_errors pass_results) patterns_list [] m of
             (None, m') \<Rightarrow> (None, m')
           | (Some e, m') \<Rightarrow> (None, m'\<lparr>current_fit_obj := None\<rparr>)))"

text \<open>
  The loop of \<^verbatim>\<open>run_single_fit\<close> over its arguments: a sequence of one element becomes
  that element, and what is not an integer then raises \<^verbatim>\<open>ValueError\<close>.
\<close>

fun to_sites :: "arg list \<Rightarrow> int list \<Rightarrow> error + int list" where
  "to_sites [] sites = Inr sites"
| "to_sites (Scalar i # as) sites = to_sites as (sites @ [i])"
| "to_sites (Seq xs # as) sites =
     (if length xs = 1 then to_sites as (sites @ [xs ! 0]) else Inl ValueError)"

text \<open>\<^verbatim>\<open>run_single_fit\<close>: the range check only warns here.\<close>

definition run_single_fit ::
  "env \<Rightarrow> arg list \<Rightarrow> bool \<Rightarrow> fitmanager \<Rightarrow> error option \<times> fitmanager" where
  "run_single_fit ev args get_errors m =
     (case is_datapattern_inrange ev m of
        Inl e \<Rightarrow> (Some e, m)
      | Inr _ \<Rightarrow>
          (case to_sites args [] of
             Inl e \<Rightarrow> (Some e, m)
           | Inr sites \<Rightarrow>
               (case single_fit ev get_errors False sites m of
                  (None, m') \<Rightarrow> (None, m')
                | (Some e, m') \<Rightarrow> (None, m'\<lparr>current_fit_obj := None\<rparr>))))"

subsection \<open>What the tables say about best and last\<close>

text \<open>The row that the horizontal table holds for a finished fit.\<close>

definition row_of :: "fit \<Rightarrow> hrow option" where
  "row_of ft =
     (case results ft of
        None \<Rightarrow> None
      | Some r \<Rightarrow> Some \<lparr>h_value = res_fun r, h_success = res_success r, h_p = sites_idx ft\<rparr>)"

text \<open>
  The relation between the stored fits and the rows of the horizontal table that every
  combination keeps: nothing is stored before the first row; afterwards the best fit is the
  first row of least cost, the minimum is its cost, and the last fit is the last row.
\<close>

definition tracked :: "fitmanager \<Rightarrow> bool" where
  "tracked m =
     (let rows = df_horizontal m in
      if rows = [] then min_value m = None \<and> best_fit m = None \<and> last_fit m = None
      else (\<exists>b l i. best_fit m = Some b \<and> last_fit m = Some l \<and> i < length rows
              \<and> row_of b = Some (rows ! i) \<and> min_value m = Some (h_value (rows ! i))
              \<and> (\<forall>j < length rows. h_value (rows ! i) \<le> h_value (rows ! j))
              \<and> (\<forall>j < i. h_value (rows ! i) < h_value (rows ! j))
              \<and> row_of l = Some (last rows)))"

section \<open>\<^verbatim>\<open>PyFDD/fits.py\<close>: cost functions, driver and error estimate\<close>

subsection \<open>Data\<close>

text \<open>
  One entry of \<^verbatim>\<open>parameters_dict\<close>:
  \<^verbatim>\<open>{'p0', 'value', 'use', 'variance', 'scale', 'bounds'}\<close>.
\<close>

record parameter =
  par_p0 :: real
  par_value :: "real option"
  par_use :: bool
  par_variance :: "real option"
  par_scale :: real
  par_bounds :: "real option \<times> real option"

text \<open>
  A masked array, flattened: \<open>None\<close> is a masked cell. The pattern generator is the bound
  method \<^verbatim>\<open>make_pattern(dx, dy, phi, fractions, total_events, sigma, type='ideal')\<close>.
\<close>

type_synonym pattern = "real option list"

type_synonym generator = "real \<Rightarrow> real \<Rightarrow> real \<Rightarrow> real list \<Rightarrow> real \<Rightarrow> real \<Rightarrow> pattern"

text \<open>
  The state of a \<^verbatim>\<open>fits\<close> object. \<^verbatim>\<open>parameters_dict\<close> always has its twelve keys, so it is
  a total function on them. \<open>fits_results\<close> is \<^verbatim>\<open>results['x']\<close>. The copy of the last
  synthetic pattern and the optional plotting are left out: no result depends on them.
\<close>

record fits =
  parameters_dict :: "key \<Rightarrow> parameter"
  data_pattern :: pattern
  pattern_generator :: "generator option"
  fits_results :: "real list option"
  fits_variance :: "real list option"

text \<open>
  The libraries, as parameters:
  \<^item> \<open>PatternCreator\<close>: the generator built for a tuple of simulations (library, mesh, mask and
    sub-pixels are fixed);
  \<^item> \<open>op_minimize\<close>: \<^verbatim>\<open>scipy.optimize.minimize\<close> with L-BFGS-B, given the cost function, the
    start vector and the bounds, returning \<^verbatim>\<open>res['x']\<close>;
  \<^item> \<open>nd_Hessian\<close>: \<^verbatim>\<open>numdifftools.Hessian(f)(x)\<close>;
  \<^item> \<open>linalg_inv\<close>: \<^verbatim>\<open>numpy.linalg.inv\<close>, \<open>None\<close> when it raises \<^verbatim>\<open>LinAlgError\<close>.
\<close>

record libs =
  PatternCreator :: "real option list \<Rightarrow> generator"
  op_minimize ::
    "(real list \<Rightarrow> error + real) \<Rightarrow> real list \<Rightarrow> (real option \<times> real option) list
       \<Rightarrow> error + real list"
  nd_Hessian :: "(real list \<Rightarrow> error + real) \<Rightarrow> real list \<Rightarrow> error + real list list"
  linalg_inv :: "real list list \<Rightarrow> real list list option"

definition parameters_order :: "key list" where
  "parameters_order = [Dx, Dy, Phi, Total_cts, Sigma, F_p 1, F_p 2, F_p 3]"

definition pattern_keys :: "key list" where
  "pattern_keys = [Pattern 1, Pattern 2, Pattern 3]"

subsection \<open>Reduced vectors\<close>

text \<open>\<^verbatim>\<open>_get_p0_scale\<close>: the scales of the parameters in use, in order.\<close>

definition get_p0_scale :: "fits \<Rightarrow> real list" where
  "get_p0_scale ft =
     map (\<lambda>k. par_scale (parameters_dict ft k))
       (filter (\<lambda>k. par_use (parameters_dict ft k)) parameters_order)"

text \<open>
  \<^verbatim>\<open>_get_p0\<close>: \<^verbatim>\<open>p0 / scale\<close> for the parameters in use. The operands are Python
  numbers, so a zero scale raises \<^verbatim>\<open>ZeroDivisionError\<close>.
\<close>

fun get_p0_loop :: "fits \<Rightarrow> key list \<Rightarrow> real list \<Rightarrow> error + real list" where
  "get_p0_loop ft [] p0 = Inr p0"
| "get_p0_loop ft (k # ks) p0 =
     (if par_use (parameters_dict ft k) then
        (if par_scale (parameters_dict ft k) = 0 then Inl ZeroDivisionError
         else get_p0_loop ft ks
                (p0 @ [par_p0 (parameters_dict ft k) / par_scale (parameters_dict ft k)]))
      else get_p0_loop ft ks p0)"

definition get_p0 :: "fits \<Rightarrow> error + real list" where
  "get_p0 ft = get_p0_loop ft parameters_order []"

text \<open>
  The loop shared by \<^verbatim>\<open>chi_square_call\<close> and \<^verbatim>\<open>log_likelihood_call\<close> that rebuilds the
  full tuple \<^verbatim>\<open>params_temp\<close> from the reduced vector \<^verbatim>\<open>params\<close>.
\<close>

fun params_temp_loop ::
  "fits \<Rightarrow> key list \<Rightarrow> real list \<Rightarrow> real list \<Rightarrow> nat \<Rightarrow> real list \<Rightarrow> error + real list" where
  "params_temp_loop ft [] params p0_scale di params_temp = Inr params_temp"
| "params_temp_loop ft (k # ks) params p0_scale di params_temp =
     (if par_use (parameters_dict ft k) then
        (if di < length params \<and> di < length p0_scale
         then params_temp_loop ft ks params p0_scale (di + 1)
                (params_temp @ [params ! di * p0_scale ! di])
         else Inl IndexError)
      else params_temp_loop ft ks params p0_scale di
             (params_temp @ [par_p0 (parameters_dict ft k)]))"

text \<open>\<^verbatim>\<open>self._get_p0_scale() if enable_scale else np.ones(len(params))\<close>\<close>

definition scale_vector :: "fits \<Rightarrow> bool \<Rightarrow> nat \<Rightarrow> real list" where
  "scale_vector ft enable_scale n = (if enable_scale then get_p0_scale ft else replicate n 1)"

text \<open>The fractions of the patterns in use, picked from \<^verbatim>\<open>f_p1, f_p2, f_p3\<close>.\<close>

definition fractions_of :: "fits \<Rightarrow> real \<Rightarrow> real \<Rightarrow> real \<Rightarrow> real list" where
  "fractions_of ft f_p1 f_p2 f_p3 =
     (if par_use (parameters_dict ft (Pattern 1)) then [f_p1] else []) @
     (if par_use (parameters_dict ft (Pattern 2)) then [f_p2] else []) @
     (if par_use (parameters_dict ft (Pattern 3)) then [f_p3] else [])"

subsection \<open>Cost functions\<close>

text \<open>
  The pairs (observed, synthetic) of the cells that neither array masks: an elementwise
  operation on two masked arrays masks a cell that either operand masks, and \<^verbatim>\<open>np.sum\<close>
  skips masked cells.
\<close>

definition valid_cells :: "pattern \<Rightarrow> pattern \<Rightarrow> (real \<times> real) list" where
  "valid_cells data sim =
     concat (map (\<lambda>(d, s). case (d, s) of (Some x, Some y) \<Rightarrow> [(x, y)] | _ \<Rightarrow> [])
               (zip data sim))"

text \<open>
  \<^verbatim>\<open>np.sum((data_pattern - sim_pattern) ** 2 / np.abs(sim_pattern))\<close>. Arrays of different
  shapes do not combine. The divisor is \<^verbatim>\<open>np.abs(sim_pattern)\<close> as the generator returned
  it.
\<close>

definition pearson_chi2 :: "pattern \<Rightarrow> pattern \<Rightarrow> error + real" where
  "pearson_chi2 data sim_pattern =
     (let cells = valid_cells data sim_pattern
      in if length sim_pattern \<noteq> length data then Inl ValueError
         else if list_ex (\<lambda>(d, s). \<bar>s\<bar> = 0) cells then Inl FloatingPointError
         else Inr (sum_list (map (\<lambda>(d, s). (d - s)\<^sup>2 / \<bar>s\<bar>) cells)))"

text \<open>
  \<^verbatim>\<open>chi_square\<close>. A generator that is not set is \<^verbatim>\<open>None\<close> and has no
  \<^verbatim>\<open>make_pattern\<close>.
\<close>

definition chi_square ::
  "fits \<Rightarrow> real \<Rightarrow> real \<Rightarrow> real \<Rightarrow> real \<Rightarrow> real list \<Rightarrow> real \<Rightarrow> error + real" where
  "chi_square ft dx dy phi total_events fractions_sims sigma =
     (let rnd_events = [1 - sum_list fractions_sims];
          fractions = rnd_events @ fractions_sims
      in case pattern_generator ft of
           None \<Rightarrow> Inl AttributeError
         | Some gen \<Rightarrow>
             pearson_chi2 (data_pattern ft) (gen dx dy phi fractions total_events sigma))"

definition chi_square_call :: "fits \<Rightarrow> real list \<Rightarrow> bool \<Rightarrow> error + real" where
  "chi_square_call ft params enable_scale =
     (case params_temp_loop ft parameters_order params
             (scale_vector ft enable_scale (length params)) 0 [] of
        Inl e \<Rightarrow> Inl e
      | Inr params_temp \<Rightarrow>
          (case params_temp of
             [dx, dy, phi, total_cts, sigma, f_p1, f_p2, f_p3] \<Rightarrow>
               chi_square ft dx dy phi total_cts (fractions_of ft f_p1 f_p2 f_p3) sigma
           | _ \<Rightarrow> Inl ValueError))"

text \<open>
  \<^verbatim>\<open>-np.sum(data_pattern * np.log(sim_pattern))\<close>: the value that \<^verbatim>\<open>log_likelihood\<close>
  returns for a synthetic pattern.
\<close>

definition neg_log_likelihood :: "pattern \<Rightarrow> pattern \<Rightarrow> error + real" where
  "neg_log_likelihood data sim_pattern =
     (let cells = valid_cells data sim_pattern
      in if length sim_pattern \<noteq> length data then Inl ValueError
         else if list_ex (\<lambda>(d, s). s \<le> 0) cells then Inl FloatingPointError
         else Inr (- sum_list (map (\<lambda>(d, s). d * ln s) cells)))"

text \<open>\<^verbatim>\<open>log_likelihood\<close>: \<^verbatim>\<open>total_events = 1\<close>.\<close>

definition log_likelihood ::
  "fits \<Rightarrow> real \<Rightarrow> real \<Rightarrow> real \<Rightarrow> real list \<Rightarrow> real \<Rightarrow> error + real" where
  "log_likelihood ft dx dy phi fractions_sims sigma =
     (let total_events = 1;
          rnd_events = [1 - sum_list fractions_sims];
          fractions = rnd_events @ fractions_sims
      in case pattern_generator ft of
           None \<Rightarrow> Inl AttributeError
         | Some gen \<Rightarrow>
             neg_log_likelihood (data_pattern ft)
               (gen dx dy phi fractions total_events sigma))"

definition log_likelihood_call :: "fits \<Rightarrow> real list \<Rightarrow> bool \<Rightarrow> error + real" where
  "log_likelihood_call ft params enable_scale =
     (case params_temp_loop ft parameters_order params
             (scale_vector ft enable_scale (length params)) 0 [] of
        Inl e \<Rightarrow> Inl e
      | Inr params_temp \<Rightarrow>
          (case params_temp of
             [dx, dy, phi, total_cts, sigma, f_p1, f_p2, f_p3] \<Rightarrow>
               log_likelihood ft dx dy phi (fractions_of ft f_p1 f_p2 f_p3) sigma
           | _ \<Rightarrow> Inl ValueError))"

subsection \<open>The optimisation driver\<close>

text \<open>
  The loop after \<^verbatim>\<open>op.minimize\<close>: a parameter in use takes
  \<^verbatim>\<open>res['x'][di] * scale\<close> (the product is also stored back into \<^verbatim>\<open>res['x']\<close>), any other
  parameter takes its \<^verbatim>\<open>p0\<close>.
\<close>

fun write_back ::
  "key list \<Rightarrow> (key \<Rightarrow> parameter) \<Rightarrow> real list \<Rightarrow> nat
     \<Rightarrow> error + (key \<Rightarrow> parameter) \<times> real list" where
  "write_back [] pd x di = Inr (pd, x)"
| "write_back (k # ks) pd x di =
     (if par_use (pd k) then
        (if di < length x then
           (let x' = x[di := x ! di * par_scale (pd k)]
            in write_back ks (pd(k := (pd k)\<lparr>par_value := Some (x' ! di)\<rparr>)) x' (di + 1))
         else Inl IndexError)
      else write_back ks (pd(k := (pd k)\<lparr>par_value := Some (par_p0 (pd k))\<rparr>)) x di)"

text \<open>The bounds of the parameters in use, and the simulations of the patterns in use.\<close>

definition bnds_of :: "fits \<Rightarrow> (real option \<times> real option) list" where
  "bnds_of ft =
     map (\<lambda>k. par_bounds (parameters_dict ft k))
       (filter (\<lambda>k. par_use (parameters_dict ft k)) parameters_order)"

definition simulations_of :: "fits \<Rightarrow> real option list" where
  "simulations_of ft =
     map (\<lambda>k. par_value (parameters_dict ft k))
       (filter (\<lambda>k. par_use (parameters_dict ft k)) pattern_keys)"

text \<open>
  \<^verbatim>\<open>self.pattern_generator = PatternCreator(self.lib, ..., simulations, ...)\<close>
\<close>

definition with_generator :: "libs \<Rightarrow> fits \<Rightarrow> fits" where
  "with_generator lb ft = ft\<lparr>pattern_generator := Some (PatternCreator lb (simulations_of ft))\<rparr>"

text \<open>
  What \<^verbatim>\<open>minimize_chi2\<close> and \<^verbatim>\<open>maximize_likelyhood\<close> share from \<^verbatim>\<open>_get_p0\<close> on; \<open>call\<close>
  is the cost function handed to the minimiser with \<^verbatim>\<open>args=True\<close>.
\<close>

definition minimize_with ::
  "libs \<Rightarrow> (fits \<Rightarrow> real list \<Rightarrow> bool \<Rightarrow> error + real) \<Rightarrow> fits \<Rightarrow> error + fits" where
  "minimize_with lb call ft =
     (case get_p0 ft of
        Inl e \<Rightarrow> Inl e
      | Inr p0 \<Rightarrow>
          (let ft1 = with_generator lb ft
           in case op_minimize lb (\<lambda>params. call ft1 params True) p0 (bnds_of ft) of
                Inl e \<Rightarrow> Inl e
              | Inr x \<Rightarrow>
                  (case write_back parameters_order (parameters_dict ft1) x 0 of
                     Inl e \<Rightarrow> Inl e
                   | Inr (pd, x') \<Rightarrow>
                       Inr (ft1\<lparr>parameters_dict := pd, fits_results := Some x'\<rparr>))))"

definition minimize_chi2 :: "libs \<Rightarrow> fits \<Rightarrow> error + fits" where
  "minimize_chi2 lb ft = minimize_with lb chi_square_call ft"

text \<open>\<^verbatim>\<open>self.parameters_dict['total_cts']['use'] = False\<close>\<close>

definition total_cts_unused :: "fits \<Rightarrow> fits" where
  "total_cts_unused ft =
     ft\<lparr>parameters_dict :=
          (parameters_dict ft)(Total_cts := (parameters_dict ft Total_cts)\<lparr>par_use := False\<rparr>)\<rparr>"

text \<open>\<^verbatim>\<open>maximize_likelyhood\<close> first takes \<^verbatim>\<open>total_cts\<close> out of use.\<close>

definition maximize_likelyhood :: "libs \<Rightarrow> fits \<Rightarrow> error + fits" where
  "maximize_likelyhood lb ft = minimize_with lb log_likelihood_call (total_cts_unused ft)"

subsection \<open>The error estimate\<close>

text \<open>
  An in-place elementwise operation \<^verbatim>\<open>x op= s\<close> on one-dimensional arrays: equal lengths
  combine cell by cell, a right operand of length one is broadcast, anything else raises
  \<^verbatim>\<open>ValueError\<close>.
\<close>

definition broadcast :: "real list \<Rightarrow> real list \<Rightarrow> error + (real \<times> real) list" where
  "broadcast x s =
     (if length s = length x then Inr (zip x s)
      else if length s = 1 then Inr (map (\<lambda>v. (v, s ! 0)) x)
      else Inl ValueError)"

text \<open>\<^verbatim>\<open>np.diag\<close> of a square matrix, and \<^verbatim>\<open>0.5 * hh\<close>.\<close>

definition diag :: "real list list \<Rightarrow> real list" where
  "diag M = map (\<lambda>i. M ! i ! i) [0..<length M]"

definition half :: "real list list \<Rightarrow> real list list" where
  "half M = map (map (\<lambda>v. (1 / 2) * v)) M"

text \<open>The last loop of \<^verbatim>\<open>get_variance_from_hessian\<close>: the variance of each parameter in use.\<close>

fun store_variance ::
  "key list \<Rightarrow> (key \<Rightarrow> parameter) \<Rightarrow> real list \<Rightarrow> nat \<Rightarrow> error + (key \<Rightarrow> parameter)" where
  "store_variance [] pd variance di = Inr pd"
| "store_variance (k # ks) pd variance di =
     (if par_use (pd k) then
        (if di < length variance
         then store_variance ks (pd(k := (pd k)\<lparr>par_variance := Some (variance ! di)\<rparr>))
                variance (di + 1)
         else Inl IndexError)
      else store_variance ks pd variance di)"

text \<open>
  \<^verbatim>\<open>get_variance_from_hessian\<close>, returning the variance vector and the new state.
\<close>

definition get_variance_from_hessian ::
  "libs \<Rightarrow> fits \<Rightarrow> real list \<Rightarrow> bool \<Rightarrow> string \<Rightarrow> error + real list \<times> fits" where
  "get_variance_from_hessian lb ft x enable_scale func =
     (case broadcast x (scale_vector ft enable_scale (length x)) of
        Inl e \<Rightarrow> Inl e
      | Inr xs \<Rightarrow>
          if list_ex (\<lambda>(v, s). s = 0) xs then Inl FloatingPointError
          else
            (let x1 = map (\<lambda>(v, s). v / s) xs in
             if func \<noteq> ''likelihood'' \<and> func \<noteq> ''chi_square'' then Inl ValueError
             else
               (let f = (if func = ''likelihood''
                         then (\<lambda>xx. log_likelihood_call ft xx enable_scale)
                         else (\<lambda>xx. chi_square_call ft xx enable_scale))
                in case nd_Hessian lb f x1 of
                     Inl e \<Rightarrow> Inl e
                   | Inr hh \<Rightarrow>
                       (case linalg_inv lb (if func = ''likelihood'' then hh else half hh) of
                          None \<Rightarrow> Inl LinAlgError
                        | Some hh_inv \<Rightarrow>
                            if list_ex (\<lambda>d. d < 0) (diag hh_inv) then Inl FloatingPointError
                            else
                              (case broadcast (map sqrt (diag hh_inv))
                                      (scale_vector ft enable_scale (length x)) of
                                 Inl e \<Rightarrow> Inl e
                               | Inr vs \<Rightarrow>
                                   (let variance = map (\<lambda>(v, s). v * s) vs in
                                    case store_variance parameters_order (parameters_dict ft)
                                           variance 0 of
                                      Inl e \<Rightarrow> Inl e
                                    | Inr pd \<Rightarrow>
                                        Inr (variance,
                                             ft\<lparr>parameters_dict := pd,
                                                fits_variance := Some variance\<rparr>)))))))"

section \<open>Concrete inputs\<close>

text \<open>
  Collaborators and a fresh manager for the examples: a minimiser whose cost depends on the
  site tuple, one that raises on the tuple \<open>[2]\<close>, and a generator whose mask puts a valid
  data cell out of range. The data pattern has one valid and one masked cell.
\<close>

definition ev_ok :: env where
  "ev_ok = \<lparr>minimize_cost_function =
       (\<lambda>c ft. Inr \<lparr>res_fun = (if sites_idx ft = [1] then 5 else if sites_idx ft = [2] then 3 else 7),
                    res_success = True, res_x = []\<rparr>),
     get_std_from_hessian = (\<lambda>ft. None),
     lib_size = 10,
     sim_mask = (\<lambda>dx dy phi. [False, True])\<rparr>"

definition ev_fail :: env where
  "ev_fail = ev_ok\<lparr>minimize_cost_function :=
       (\<lambda>c ft. if sites_idx ft = [2] then Inl ExternalError
                else minimize_cost_function ev_ok c ft)\<rparr>"

definition ev_out :: env where
  "ev_out = ev_ok\<lparr>sim_mask := (\<lambda>dx dy phi. [True, True])\<rparr>"

definition m_new :: "nat \<Rightarrow> fitmanager" where
  "m_new n = \<lparr>min_value = None, best_fit = None, last_fit = None,
     dp_pattern = \<lparr>center = (0, 0), angle = 0, pattern_sum = 100, data_mask = [False, True]\<rparr>,
     current_fit_obj = None, n_sites = n, cost_function = Ml,
     scale_cfg = (\<lambda>k. 1 / 100), p_initial_values = Map.empty, p_fixed_values = Map.empty,
     df_horizontal = [], df_vertical = []\<rparr>"

text \<open>
  A manager with two fixed parameters whose last fit succeeded with four optimised values.
\<close>

definition lf_seed :: fit where
  "lf_seed = \<lparr>sites_idx = [1], fit_scale = [], fit_p0 = [], fit_fix = [],
     results = Some \<lparr>res_fun = 3, res_success = True, res_x = [1, 2, 3, 4]\<rparr>\<rparr>"

definition m_seed :: fitmanager where
  "m_seed = (m_new 1)\<lparr>p_fixed_values := [Total_cts \<mapsto> 50, Sigma \<mapsto> 1 / 5],
                       last_fit := Some lf_seed\<rparr>"

text \<open>
  Modelled from the spec: the \<^verbatim>\<open>Fit\<close> class is not in the sources. Its result vector
  \<^verbatim>\<open>results['x']\<close> is the reduced vector: one coordinate per free parameter (the ones whose
  fixed flag is off), in the order of the parameter keys. The minimiser below returns such
  a vector, the start values of the free parameters, and reports success.
\<close>

definition free_coordinates :: "fit \<Rightarrow> real list" where
  "free_coordinates ft =
     map fst (filter (\<lambda>(v, fixed). \<not> fixed) (zip (fit_p0 ft) (fit_fix ft)))"

definition ev_free :: env where
  "ev_free = ev_ok\<lparr>minimize_cost_function :=
       (\<lambda>c ft. Inr \<lparr>res_fun = (if sites_idx ft = [1] then 5 else if sites_idx ft = [2] then 3 else 7),
                    res_success = True, res_x = free_coordinates ft\<rparr>)\<rparr>"

text \<open>
  A \<^verbatim>\<open>fits\<close> object with four parameters in use (\<open>dx\<close>, \<open>phi\<close>, \<open>total_cts\<close>, \<open>f_p1\<close>)
  and one pattern, the same object with \<open>dx\<close> alone in use, one with two patterns and a
  generator that returns the fractions it is given, a generator with non-zero
  cells, one with a zero cell in a valid position, and stand-ins for the numeric libraries:
  a minimiser that moves every coordinate by one, a Hessian that is \<open>[[0]]\<close> at the origin
  and \<open>[[2]]\<close> elsewhere, and an inverse that knows \<open>[[1]]\<close> only.
\<close>

definition pd_ex :: "key \<Rightarrow> parameter" where
  "pd_ex k =
     \<lparr>par_p0 = (if k = Dx then 1 else if k = Dy then 3 else if k = Phi then 5
                else if k = Total_cts then 100 else if k = Sigma then 0 else 1 / 4),
      par_value = None,
      par_use = (k \<in> {Dx, Phi, Total_cts, F_p 1, Pattern 1}),
      par_variance = None,
      par_scale = (if k = Dx then 2 else if k = Total_cts then 10 else 1),
      par_bounds = (None, None)\<rparr>"

definition gen_ex :: generator where
  "gen_ex dx dy phi fractions total_events sigma = [Some 2, Some 1, Some 7]"

definition ft_ex :: fits where
  "ft_ex = \<lparr>parameters_dict = pd_ex, data_pattern = [Some 4, Some 1, None],
     pattern_generator = Some gen_ex, fits_results = None, fits_variance = None\<rparr>"



definition gen_echo :: generator where
  "gen_echo dx dy phi fractions total_events sigma = map Some fractions"

definition ft_two :: fits where
  "ft_two = \<lparr>parameters_dict =
       (\<lambda>k. (pd_ex k)\<lparr>par_use :=
                 (k \<in> {Dx, Phi, Total_cts, F_p 1, F_p 2, Pattern 1, Pattern 2})\<rparr>),
     data_pattern = [Some 4, Some 1, None],
     pattern_generator = Some gen_echo, fits_results = None, fits_variance = None\<rparr>"

definition ft_one :: fits where
  "ft_one = ft_ex\<lparr>parameters_dict := (\<lambda>k. (pd_ex k)\<lparr>par_use := (k = Dx)\<rparr>)\<rparr>"

definition lb_ex :: libs where
  "lb_ex = \<lparr>PatternCreator = (\<lambda>simulations. gen_ex),
     op_minimize = (\<lambda>f p0 bnds. Inr (map (\<lambda>v. v + 1) p0)),
     nd_Hessian = (\<lambda>f x. if x = [0] then Inr [[0]] else Inr [[2]]),
     linalg_inv = (\<lambda>M. if M = [[1]] then Some [[1]] else None)\<rparr>"

section \<open>The sweep of \<^verbatim>\<open>run_fits\<close>\<close>

lemmas ev_defs = ev_ok_def m_new_def
lemmas fm_defs = run_fits_def is_datapattern_inrange_def get_initial_values_def
  p0_pass_def compute_initial_fit_values_def compute_parameter_keys_def initial_entry_def
  single_fit_def build_fits_obj_def get_scale_values_def fill_horizontal_results_dict_def
  fill_vertical_results_dict_def keep_best_def spectrum_ok_def

subsection \<open>Loops and the enumeration\<close>

lemma for_each_append:
  "for_each body (xs @ ys) m =
     (case for_each body xs m of (Some e, m') \<Rightarrow> (Some e, m') | (None, m') \<Rightarrow> for_each body ys m')"
  by (induction xs arbitrary: m) (auto split: prod.splits option.splits)

lemma for_each_concat:
  "for_each (\<lambda>s. for_each body (L s)) p m = for_each body (concat (map L p)) m"
  by (induction p arbitrary: m) (auto simp: for_each_append split: prod.splits option.splits)

lemma for_each_map: "for_each body (map g xs) m = for_each (\<lambda>x. body (g x)) xs m"
  by (induction xs arbitrary: m) (auto split: prod.splits option.splits)

lemma recursive_call_product:
  "recursive_call fit1 ps sites m = for_each fit1 (map ((@) sites) (product_lists ps)) m"
proof (induction ps arbitrary: sites m)
  case Nil
  show ?case by (simp split: prod.splits option.splits)
next
  case (Cons p ps)
  have "recursive_call fit1 (p # ps) sites m
      = for_each (\<lambda>s. for_each fit1 (map ((@) (sites @ [s])) (product_lists ps))) p m"
  proof -
    have "(\<lambda>s. recursive_call fit1 ps (sites @ [s]))
        = (\<lambda>s. for_each fit1 (map ((@) (sites @ [s])) (product_lists ps)))"
      by (intro ext) (rule Cons.IH)
    then show ?thesis by simp
  qed
  also have "\<dots> = for_each fit1 (concat (map (\<lambda>s. map ((@) (sites @ [s])) (product_lists ps)) p)) m"
    by (rule for_each_concat)
  also have "concat (map (\<lambda>s. map ((@) (sites @ [s])) (product_lists ps)) p)
      = map ((@) sites) (product_lists (p # ps))"
  proof -
    have "\<And>s. (@) (sites @ [s]) = (\<lambda>xa. sites @ s # xa)" by (intro ext) simp
    then show ?thesis by (simp add: map_concat comp_def)
  qed
  finally show ?case .
qed

subsection \<open>One combination\<close>

lemma fill_vertical_after_horizontal:
  assumes "fill_horizontal_results_dict ev ft sites m = Inr m3"
  shows "\<exists>m4. fill_vertical_results_dict ev ft sites m3 = Inr m4"
  using assms
  by (auto simp: fill_horizontal_results_dict_def fill_vertical_results_dict_def
           split: option.splits if_splits)

lemma single_fit_raises:
  assumes "single_fit ev ge pr sites m = (Some e, m')"
  shows "m' = m\<lparr>current_fit_obj := current_fit_obj m'\<rparr>"
proof -
  have v: "\<And>ft m2 m3 e'. fill_horizontal_results_dict ev ft sites m2 = Inr m3 \<Longrightarrow>
            fill_vertical_results_dict ev ft sites m3 \<noteq> Inl e'"
    using fill_vertical_after_horizontal by fastforce
  show ?thesis
    using assms v
    by (auto simp: single_fit_def Let_def split: if_splits sum.splits option.splits prod.splits)
qed

lemma single_fit_returns:
  assumes "single_fit ev ge pr sites m = (None, m')"
  shows "\<exists>ft0 r. build_fits_obj m sites pr = Inr ft0
           \<and> minimize_cost_function ev (cost_function m) ft0 = Inr r
           \<and> length sites = n_sites m
           \<and> m' = keep_best (ft0\<lparr>results := Some r\<rparr>) (res_fun r)
                   (m\<lparr>current_fit_obj := Some (ft0\<lparr>results := Some r\<rparr>),
                      df_horizontal := df_horizontal m @
                        [\<lparr>h_value = res_fun r, h_success = res_success r, h_p = sites\<rparr>],
                      df_vertical := df_vertical m @
                        map (\<lambda>s. \<lparr>v_p = s\<rparr>) sites\<rparr>)"
  using assms
  by (auto simp: single_fit_def Let_def fill_horizontal_results_dict_def
        fill_vertical_results_dict_def
      split: if_splits sum.splits option.splits prod.splits)

lemma build_fits_obj_sites:
  "build_fits_obj m sites pr = Inr ft0 \<Longrightarrow> sites_idx ft0 = sites \<and> results ft0 = None"
  by (auto simp: build_fits_obj_def split: sum.splits prod.splits)

lemma for_each_raises:
  assumes "for_each body L m = (Some e, m1)"
  shows "\<exists>k < length L. \<exists>m2. for_each body (take k L) m = (None, m2)
           \<and> body (L ! k) m2 = (Some e, m1)"
  using assms
proof (induction L arbitrary: m)
  case Nil
  then show ?case by simp
next
  case (Cons s L)
  obtain e1 m' where s1: "body s m = (e1, m')" by (cases "body s m")
  show ?case
  proof (cases e1)
    case None
    with Cons.prems s1 have "for_each body L m' = (Some e, m1)" by simp
    from Cons.IH[OF this] obtain k m2 where
      k: "k < length L" "for_each body (take k L) m' = (None, m2)" "body (L ! k) m2 = (Some e, m1)"
      by blast
    have "for_each body (take (Suc k) (s # L)) m = (None, m2)" using s1 None k(2) by simp
    moreover have "body ((s # L) ! Suc k) m2 = (Some e, m1)" using k(3) by simp
    moreover have "Suc k < length (s # L)" using k(1) by simp
    ultimately show ?thesis by blast
  next
    case (Some e')
    with Cons.prems s1 have "e' = e" "m' = m1" by simp_all
    then have "for_each body (take 0 (s # L)) m = (None, m)" "body ((s # L) ! 0) m = (Some e, m1)"
      using s1 Some by simp_all
    then show ?thesis by (intro exI[of _ 0]) auto
  qed
qed

lemma single_fit_rows:
  assumes "single_fit ev ge pr sites m = (None, m')"
  shows "map h_p (df_horizontal m') = map h_p (df_horizontal m) @ [sites]"
proof -
  from single_fit_returns[OF assms] show ?thesis
    by (auto simp: keep_best_def Let_def split: option.splits)
qed

lemma for_each_rows:
  assumes "for_each (single_fit ev ge pr) L m = (None, m')"
  shows "map h_p (df_horizontal m') = map h_p (df_horizontal m) @ L"
  using assms
proof (induction L arbitrary: m)
  case Nil
  then show ?case by simp
next
  case (Cons s L)
  obtain e1 m1 where s1: "single_fit ev ge pr s m = (e1, m1)" by (cases "single_fit ev ge pr s m")
  with Cons.prems have e1: "e1 = None" by (cases e1) auto
  with Cons.prems s1 have "for_each (single_fit ev ge pr) L m1 = (None, m')" by simp
  from Cons.IH[OF this] single_fit_rows[OF s1[unfolded e1]] show ?case by simp
qed

lemma recursive_call_all: "recursive_call fit1 ps [] m = for_each fit1 (product_lists ps) m"
proof -
  have "map ((@) []) (product_lists ps) = product_lists ps" by (induction "product_lists ps") auto
  then show ?thesis by (simp add: recursive_call_product)
qed



text \<open>
  Without \<^verbatim>\<open>pass_results\<close>, no combination raises when there is one candidate list per
  site, the minimiser and the error estimate return, every candidate is in the library and,
  for chi-square, the pattern has a positive sum.
\<close>

lemma get_scale_values_loop_ok:
  assumes "cost_function m = Ml \<or> 0 < pattern_sum (dp_pattern m)"
  shows "\<exists>scale'. get_scale_values_loop m ks scale = Inr scale'"
  using assms
  by (induction ks arbitrary: scale) (auto split: cost.splits)

lemma single_fit_completes:
  assumes len: "length sites = n_sites m"
    and mini: "\<forall>c ft. \<exists>r. minimize_cost_function ev c ft = Inr r"
    and std: "get_errors \<longrightarrow> (\<forall>ft. get_std_from_hessian ev ft = None)"
    and lib: "\<forall>s \<in> set sites. spectrum_ok ev s"
    and cost: "cost_function m = Ml \<or> 0 < pattern_sum (dp_pattern m)"
  shows "\<exists>m'. single_fit ev get_errors False sites m = (None, m')
           \<and> n_sites m' = n_sites m \<and> cost_function m' = cost_function m
           \<and> dp_pattern m' = dp_pattern m"
proof -
  obtain scale where sc: "get_scale_values m = Inr scale"
    using get_scale_values_loop_ok[OF cost] unfolding get_scale_values_def by blast
  obtain p0 p0_fix where iv: "get_initial_values m False = Inr (p0, p0_fix)"
    by (cases "compute_initial_fit_values (dp_pattern m) (n_sites m) (p_fixed_values m)
                 (p_initial_values m)")
       (simp add: get_initial_values_def p0_pass_def)
  let ?ft0 = "\<lparr>sites_idx = sites, fit_scale = scale, fit_p0 = p0, fit_fix = p0_fix,
                results = None\<rparr>"
  have b: "build_fits_obj m sites False = Inr ?ft0"
    using sc iv by (simp add: build_fits_obj_def)
  obtain r where r: "minimize_cost_function ev (cost_function m) ?ft0 = Inr r"
    using mini by blast
  have s: "(if get_errors then get_std_from_hessian ev (?ft0\<lparr>results := Some r\<rparr>) else None)
             = None"
    using std by simp
  show ?thesis
    unfolding single_fit_def Let_def
    using len b r lib
    by (simp add: s fill_horizontal_results_dict_def
          fill_vertical_results_dict_def keep_best_def split: option.splits)
qed

lemma for_each_completes:
  assumes "\<forall>sites \<in> set L. length sites = n_sites m \<and> (\<forall>s \<in> set sites. spectrum_ok ev s)"
    and mini: "\<forall>c ft. \<exists>r. minimize_cost_function ev c ft = Inr r"
    and std: "get_errors \<longrightarrow> (\<forall>ft. get_std_from_hessian ev ft = None)"
    and cost: "cost_function m = Ml \<or> 0 < pattern_sum (dp_pattern m)"
  shows "fst (for_each (single_fit ev get_errors False) L m) = None"
  using assms(1) cost
proof (induction L arbitrary: m)
  case Nil
  then show ?case by simp
next
  case (Cons sites L)
  from Cons.prems have "length sites = n_sites m" "\<forall>s \<in> set sites. spectrum_ok ev s"
    by simp_all
  from single_fit_completes[OF this(1) mini std this(2) Cons.prems(2)] obtain m' where
    s: "single_fit ev get_errors False sites m = (None, m')"
    and k: "n_sites m' = n_sites m" "cost_function m' = cost_function m"
      "dp_pattern m' = dp_pattern m"
    by blast
  have "fst (for_each (single_fit ev get_errors False) L m') = None"
    using Cons.prems k by (intro Cons.IH) simp_all
  then show ?case using s by simp
qed

lemma product_lists_elems:
  "xs \<in> set (product_lists xss) \<Longrightarrow> set xs \<subseteq> \<Union> (set ` set xss)"
proof (induction xss arbitrary: xs)
  case Nil
  then show ?case by simp
next
  case (Cons a xss)
  then obtain y ys where "xs = y # ys" "y \<in> set a" "ys \<in> set (product_lists xss)"
    by auto
  with Cons.IH[of ys] show ?case by auto
qed

lemma sweep_completes:
  assumes len: "length args = n_sites m"
    and mini: "\<forall>c ft. \<exists>r. minimize_cost_function ev c ft = Inr r"
    and std: "get_errors \<longrightarrow> (\<forall>ft. get_std_from_hessian ev ft = None)"
    and lib: "\<forall>a \<in> set args. \<forall>s \<in> set (atleast_1d a). spectrum_ok ev s"
    and cost: "cost_function m = Ml \<or> 0 < pattern_sum (dp_pattern m)"
  shows "fst (recursive_call (single_fit ev get_errors False) (map atleast_1d args) [] m) = None"
proof -
  have "length sites = n_sites m \<and> (\<forall>s \<in> set sites. spectrum_ok ev s)"
    if "sites \<in> set (product_lists (map atleast_1d args))" for sites
  proof -
    have "length sites = length (map atleast_1d args)"
      using that by (rule in_set_product_lists_length)
    moreover have "set sites \<subseteq> \<Union> (set ` set (map atleast_1d args))"
      using that by (rule product_lists_elems)
    ultimately show ?thesis using len lib by auto
  qed
  then show ?thesis
    using for_each_completes[OF _ mini std cost] by (simp add: recursive_call_all)
qed



subsection \<open>Best and last\<close>

lemma tracked_current [simp]: "tracked (m\<lparr>current_fit_obj := c\<rparr>) = tracked m"
  by (simp add: tracked_def)

lemma tracked_keep_best:
  assumes t: "tracked m"
    and ft: "results ft = Some r" "sites_idx ft = sites"
  shows "tracked (keep_best ft (res_fun r)
           (m\<lparr>current_fit_obj := c,
              df_horizontal := df_horizontal m @
                [\<lparr>h_value = res_fun r, h_success = res_success r, h_p = sites\<rparr>],
              df_vertical := vs\<rparr>))"
proof (cases "df_horizontal m = []")
  case True
  with t ft show ?thesis
    by (auto simp: tracked_def keep_best_def row_of_def Let_def)
next
  case False
  let ?rows = "df_horizontal m"
  let ?new = "\<lparr>h_value = res_fun r, h_success = res_success r, h_p = sites\<rparr>"
  from t False obtain b l i where
    b: "best_fit m = Some b" and l: "last_fit m = Some l" and i: "i < length ?rows"
    and rb: "row_of b = Some (?rows ! i)" and mv: "min_value m = Some (h_value (?rows ! i))"
    and le: "\<forall>j < length ?rows. h_value (?rows ! i) \<le> h_value (?rows ! j)"
    and lt: "\<forall>j < i. h_value (?rows ! i) < h_value (?rows ! j)"
    by (auto simp: tracked_def Let_def)
  have rn: "row_of ft = Some ?new" using ft by (simp add: row_of_def)
  show ?thesis
  proof (cases "res_fun r < h_value (?rows ! i)")
    case True
    have "\<forall>j < length (?rows @ [?new]). h_value ((?rows @ [?new]) ! length ?rows)
              \<le> h_value ((?rows @ [?new]) ! j)"
      using True le by (fastforce simp: nth_append less_Suc_eq)
    moreover have "\<forall>j < length ?rows. h_value ((?rows @ [?new]) ! length ?rows)
              < h_value ((?rows @ [?new]) ! j)"
      using True le by (fastforce simp: nth_append)
    ultimately show ?thesis
      using True mv rn
      by (auto simp: tracked_def keep_best_def Let_def intro!: exI[of _ "length ?rows"])
  next
    case nlt: False
    have "\<forall>j < length (?rows @ [?new]). h_value ((?rows @ [?new]) ! i)
              \<le> h_value ((?rows @ [?new]) ! j)"
      using nlt le i by (auto simp: nth_append less_Suc_eq)
    moreover have "\<forall>j < i. h_value ((?rows @ [?new]) ! i) < h_value ((?rows @ [?new]) ! j)"
      using lt i by (auto simp: nth_append)
    moreover have "(?rows @ [?new]) ! i = ?rows ! i" using i by (simp add: nth_append)
    ultimately show ?thesis
      using nlt mv rn b rb i
      by (auto simp: tracked_def keep_best_def Let_def intro!: exI[of _ i])
  qed
qed

lemma single_fit_tracked:
  assumes "tracked m" "single_fit ev ge pr sites m = (eo, m')"
  shows "tracked m'"
proof (cases eo)
  case None
  with assms(2) obtain ft0 r where
    b: "build_fits_obj m sites pr = Inr ft0"
    and m': "m' = keep_best (ft0\<lparr>results := Some r\<rparr>) (res_fun r)
                   (m\<lparr>current_fit_obj := Some (ft0\<lparr>results := Some r\<rparr>),
                      df_horizontal := df_horizontal m @
                        [\<lparr>h_value = res_fun r, h_success = res_success r, h_p = sites\<rparr>],
                      df_vertical := df_vertical m @
                        map (\<lambda>s. \<lparr>v_p = s\<rparr>) sites\<rparr>)"
    using single_fit_returns by blast
  have "sites_idx (ft0\<lparr>results := Some r\<rparr>) = sites" using build_fits_obj_sites[OF b] by simp
  then show ?thesis unfolding m' using assms(1) by (intro tracked_keep_best) simp_all
next
  case (Some e)
  with assms(2) have "m' = m\<lparr>current_fit_obj := current_fit_obj m'\<rparr>"
    using single_fit_raises by blast
  then show ?thesis using assms(1) by (metis tracked_current)
qed

lemma for_each_tracked:
  assumes "tracked m" "for_each (single_fit ev ge pr) L m = (eo, m')"
  shows "tracked m'"
  using assms
proof (induction L arbitrary: m)
  case Nil
  then show ?case by simp
next
  case (Cons s L)
  obtain e1 m1 where s1: "single_fit ev ge pr s m = (e1, m1)" by (cases "single_fit ev ge pr s m")
  have t1: "tracked m1" using single_fit_tracked[OF Cons.prems(1) s1] .
  show ?case
  proof (cases e1)
    case None
    with Cons.prems(2) s1 have "for_each (single_fit ev ge pr) L m1 = (eo, m')" by simp
    then show ?thesis using Cons.IH t1 by blast
  next
    case (Some e)
    with Cons.prems(2) s1 have "m' = m1" by simp
    then show ?thesis using t1 by simp
  qed
qed

lemma run_fits_tracked:
  assumes "tracked m"
  shows "tracked (snd (run_fits ev args pass_results get_errors m))"
proof -
  let ?rc = "recursive_call (single_fit ev get_errors pass_results) (map atleast_1d args) [] m"
  obtain eo m1 where rc: "?rc = (eo, m1)" by (cases ?rc)
  then have "for_each (single_fit ev get_errors pass_results)
               (product_lists (map atleast_1d args)) m = (eo, m1)"
    by (simp add: recursive_call_all)
  then have t1: "tracked m1" using for_each_tracked assms by blast
  show ?thesis
    using assms t1 rc
    by (auto simp: run_fits_def Let_def split: sum.splits bool.splits option.splits prod.splits)
qed

text \<open>
  C6. Starting from a fresh manager, once \<^verbatim>\<open>run_fits\<close> has completed at least one
  combination, the best fit is a row of the horizontal table whose cost is the minimum over
  all rows and equals \<^verbatim>\<open>min_value\<close>; when the costs are distinct it is strictly below
  every other row. The last fit is the last row, whatever its cost. Each completed
  combination ends in \<open>keep_best\<close>, which always stores the fit as last and stores it as
  best exactly when there was no minimum yet or its cost is strictly below the minimum.
  Costs are real numbers; a \<^verbatim>\<open>nan\<close> cost is outside the model.
\<close>

theorem run_fits_best_last:
  assumes fresh: "df_horizontal m = []" "min_value m = None" "best_fit m = None"
      "last_fit m = None"
    and done1: "df_horizontal (snd (run_fits ev args pass_results get_errors m)) \<noteq> []"
  shows "(\<exists>b l i. i < length (df_horizontal (snd (run_fits ev args pass_results get_errors m)))
           \<and> best_fit (snd (run_fits ev args pass_results get_errors m)) = Some b
           \<and> row_of b = Some (df_horizontal (snd (run_fits ev args pass_results get_errors m)) ! i)
           \<and> min_value (snd (run_fits ev args pass_results get_errors m))
               = Some (h_value (df_horizontal (snd (run_fits ev args pass_results get_errors m)) ! i))
           \<and> (\<forall>j < length (df_horizontal (snd (run_fits ev args pass_results get_errors m))).
                 h_value (df_horizontal (snd (run_fits ev args pass_results get_errors m)) ! i)
                   \<le> h_value (df_horizontal (snd (run_fits ev args pass_results get_errors m)) ! j))
           \<and> (distinct (map h_value (df_horizontal (snd (run_fits ev args pass_results get_errors m))))
                \<longrightarrow> (\<forall>j < length (df_horizontal (snd (run_fits ev args pass_results get_errors m))).
                       j \<noteq> i \<longrightarrow>
                       h_value (df_horizontal (snd (run_fits ev args pass_results get_errors m)) ! i)
                         < h_value (df_horizontal (snd (run_fits ev args pass_results get_errors m)) ! j)))
           \<and> last_fit (snd (run_fits ev args pass_results get_errors m)) = Some l
           \<and> row_of l = Some (last (df_horizontal (snd (run_fits ev args pass_results get_errors m)))))
         \<and> last_fit (keep_best ft f m0) = Some ft
         \<and> best_fit (keep_best ft f m0)
             = (if (case min_value m0 of None \<Rightarrow> True | Some mv \<Rightarrow> f < mv) then Some ft
                else best_fit m0)
         \<and> min_value (keep_best ft f m0)
             = (if (case min_value m0 of None \<Rightarrow> True | Some mv \<Rightarrow> f < mv) then Some f
                else min_value m0)"
proof -
  let ?m = "snd (run_fits ev args pass_results get_errors m)"
  let ?rows = "df_horizontal ?m"
  have "tracked m" using fresh by (simp add: tracked_def)
  then have "tracked ?m" by (rule run_fits_tracked)
  with done1 obtain b l i where
    b: "best_fit ?m = Some b" and l: "last_fit ?m = Some l" and i: "i < length ?rows"
    and rb: "row_of b = Some (?rows ! i)" and mv: "min_value ?m = Some (h_value (?rows ! i))"
    and le: "\<forall>j < length ?rows. h_value (?rows ! i) \<le> h_value (?rows ! j)"
    and rl: "row_of l = Some (last ?rows)"
    unfolding tracked_def Let_def by auto
  have d: "h_value (?rows ! i) < h_value (?rows ! j)"
    if dist: "distinct (map h_value ?rows)" and j: "j < length ?rows" "j \<noteq> i" for j
  proof -
    have "(map h_value ?rows ! i = map h_value ?rows ! j) = (i = j)"
      using dist i j by (intro nth_eq_iff_index_eq) simp_all
    then have "h_value (?rows ! i) \<noteq> h_value (?rows ! j)" using i j by simp
    moreover have "h_value (?rows ! i) \<le> h_value (?rows ! j)" using le j by blast
    ultimately show ?thesis by simp
  qed
  have sweep: "\<exists>b l i. i < length ?rows \<and> best_fit ?m = Some b \<and> row_of b = Some (?rows ! i)
      \<and> min_value ?m = Some (h_value (?rows ! i))
      \<and> (\<forall>j < length ?rows. h_value (?rows ! i) \<le> h_value (?rows ! j))
      \<and> (distinct (map h_value ?rows) \<longrightarrow>
            (\<forall>j < length ?rows. j \<noteq> i \<longrightarrow> h_value (?rows ! i) < h_value (?rows ! j)))
      \<and> last_fit ?m = Some l \<and> row_of l = Some (last ?rows)"
    using b l i rb mv le rl d by blast
  have step: "last_fit (keep_best ft f m0) = Some ft
         \<and> best_fit (keep_best ft f m0)
             = (if (case min_value m0 of None \<Rightarrow> True | Some mv \<Rightarrow> f < mv) then Some ft
                else best_fit m0)
         \<and> min_value (keep_best ft f m0)
             = (if (case min_value m0 of None \<Rightarrow> True | Some mv \<Rightarrow> f < mv) then Some f
                else min_value m0)"
    by (simp add: keep_best_def Let_def split: option.splits)
  show ?thesis using sweep step by blast
qed

theorem run_fits_best_last_witness:
  "df_horizontal (m_new 1) = [] \<and> min_value (m_new 1) = None \<and> best_fit (m_new 1) = None
   \<and> last_fit (m_new 1) = None
   \<and> map h_value (df_horizontal (snd (run_fits ev_ok [Seq [1, 2, 3]] False False (m_new 1))))
        = [5, 3, 7]
   \<and> min_value (snd (run_fits ev_ok [Seq [1, 2, 3]] False False (m_new 1))) = Some 3
   \<and> (\<exists>b l. best_fit (snd (run_fits ev_ok [Seq [1, 2, 3]] False False (m_new 1))) = Some b
          \<and> row_of b = Some \<lparr>h_value = 3, h_success = True, h_p = [2]\<rparr>
          \<and> last_fit (snd (run_fits ev_ok [Seq [1, 2, 3]] False False (m_new 1))) = Some l
          \<and> row_of l = Some \<lparr>h_value = 7, h_success = True, h_p = [3]\<rparr>)"
proof -
  let ?m = "snd (run_fits ev_ok [Seq [1, 2, 3]] False False (m_new 1))"
  have f: "df_horizontal (m_new 1) = []" "min_value (m_new 1) = None"
    "best_fit (m_new 1) = None" "last_fit (m_new 1) = None"
    by (simp_all add: m_new_def)
  have rows: "df_horizontal ?m = [\<lparr>h_value = 5, h_success = True, h_p = [1]\<rparr>,
      \<lparr>h_value = 3, h_success = True, h_p = [2]\<rparr>, \<lparr>h_value = 7, h_success = True, h_p = [3]\<rparr>]"
    by (simp add: ev_defs fm_defs Let_def upt_rec)
  then have ne: "df_horizontal ?m \<noteq> []" by simp
  from run_fits_best_last[OF f ne] obtain b l i where
    i: "i < length (df_horizontal ?m)" and b: "best_fit ?m = Some b"
    and rb: "row_of b = Some (df_horizontal ?m ! i)"
    and mv: "min_value ?m = Some (h_value (df_horizontal ?m ! i))"
    and le: "\<forall>j < length (df_horizontal ?m). h_value (df_horizontal ?m ! i)
                 \<le> h_value (df_horizontal ?m ! j)"
    and l: "last_fit ?m = Some l" and rl: "row_of l = Some (last (df_horizontal ?m))"
    by blast
  have "i = 1"
  proof -
    have "1 < length (df_horizontal ?m)" using rows by simp
    then have "h_value (df_horizontal ?m ! i) \<le> h_value (df_horizontal ?m ! 1)"
      using le by blast
    moreover have "i = 0 \<or> i = 1 \<or> i = 2" using i rows by auto
    ultimately show ?thesis using rows by auto
  qed
  then show ?thesis using f rows b rb mv l rl by simp
qed

subsection \<open>An exception inside the sweep\<close>

text \<open>
  The minimiser raises on the second of three candidates. \<^verbatim>\<open>run_fits\<close> returns normally
  with the first candidate as the only row: the third candidate, which fits without an
  exception in the state the sweep left behind, was never processed.
\<close>

theorem run_fits_exception_skips_rest_counterexample:
  "fst (run_fits ev_fail [Seq [1, 2, 3]] False False (m_new 1)) = None
   \<and> map h_p (df_horizontal (snd (run_fits ev_fail [Seq [1, 2, 3]] False False (m_new 1)))) = [[1]]
   \<and> fst (single_fit ev_fail False False [3]
            (snd (run_fits ev_fail [Seq [1, 2, 3]] False False (m_new 1)))) = None"
  by (simp add: ev_fail_def ev_defs fm_defs Let_def upt_rec)

text \<open>
  C4, as the code has it. When a combination raises, \<^verbatim>\<open>run_fits\<close> swallows the exception
  and returns normally; the manager is the one that the combinations completed before the
  failing one left, with the current-fit handle set to \<open>None\<close>; the rows added are those
  of the \<open>k\<close> combinations before the failing one, so the sweep ends there and the
  remaining combinations are not processed.
\<close>

theorem run_fits_exception_ends_sweep:
  assumes inrange: "is_datapattern_inrange ev m = Inr True"
    and args: "args \<noteq> []"
    and exc: "fst (recursive_call (single_fit ev get_errors pass_results)
                    (map atleast_1d args) [] m) = Some e"
  shows "\<exists>k m2. k < length (product_lists (map atleast_1d args))
           \<and> for_each (single_fit ev get_errors pass_results)
                 (take k (product_lists (map atleast_1d args))) m = (None, m2)
           \<and> fst (single_fit ev get_errors pass_results
                     (product_lists (map atleast_1d args) ! k) m2) = Some e
           \<and> run_fits ev args pass_results get_errors m = (None, m2\<lparr>current_fit_obj := None\<rparr>)
           \<and> map h_p (df_horizontal m2)
                = map h_p (df_horizontal m) @ take k (product_lists (map atleast_1d args))"
proof -
  let ?P = "product_lists (map atleast_1d args)"
  let ?f = "single_fit ev get_errors pass_results"
  obtain m1 where rc: "recursive_call ?f (map atleast_1d args) [] m = (Some e, m1)"
    using exc by (cases "recursive_call ?f (map atleast_1d args) [] m") auto
  then have "for_each ?f ?P m = (Some e, m1)" by (simp add: recursive_call_all)
  from for_each_raises[OF this] obtain k m2 where
    k: "k < length ?P" and pre: "for_each ?f (take k ?P) m = (None, m2)"
    and bad: "?f (?P ! k) m2 = (Some e, m1)"
    by blast
  have m1: "m1 = m2\<lparr>current_fit_obj := current_fit_obj m1\<rparr>"
    using single_fit_raises[OF bad] .
  have "m1\<lparr>current_fit_obj := None\<rparr> = m2\<lparr>current_fit_obj := None\<rparr>"
    by (subst m1) simp
  moreover have "1 \<le> length (map atleast_1d args)" using args by (cases args) simp_all
  ultimately have run: "run_fits ev args pass_results get_errors m
      = (None, m2\<lparr>current_fit_obj := None\<rparr>)"
    using inrange rc by (simp add: run_fits_def Let_def)
  have rows: "map h_p (df_horizontal m2) = map h_p (df_horizontal m) @ take k ?P"
    using for_each_rows[OF pre] .
  show ?thesis using k pre bad run rows by (intro exI[of _ k] exI[of _ m2]) simp
qed

theorem run_fits_exception_ends_sweep_witness:
  "is_datapattern_inrange ev_fail (m_new 1) = Inr True
   \<and> [Seq [1, 2, 3]] \<noteq> []
   \<and> fst (recursive_call (single_fit ev_fail False False)
            (map atleast_1d [Seq [1, 2, 3]]) [] (m_new 1)) = Some ExternalError
   \<and> (\<exists>k m2. k < length (product_lists (map atleast_1d [Seq [1, 2, 3]]))
           \<and> for_each (single_fit ev_fail False False)
                 (take k (product_lists (map atleast_1d [Seq [1, 2, 3]]))) (m_new 1) = (None, m2)
           \<and> fst (single_fit ev_fail False False
                     (product_lists (map atleast_1d [Seq [1, 2, 3]]) ! k) m2) = Some ExternalError
           \<and> run_fits ev_fail [Seq [1, 2, 3]] False False (m_new 1)
                = (None, m2\<lparr>current_fit_obj := None\<rparr>)
           \<and> map h_p (df_horizontal m2)
                = map h_p (df_horizontal (m_new 1))
                  @ take k (product_lists (map atleast_1d [Seq [1, 2, 3]])))"
proof -
  have h1: "is_datapattern_inrange ev_fail (m_new 1) = Inr True"
    by (simp add: ev_fail_def ev_defs fm_defs)
  have h2: "[Seq [1, 2, 3]] \<noteq> []" by simp
  have h3: "fst (recursive_call (single_fit ev_fail False False)
            (map atleast_1d [Seq [1, 2, 3]]) [] (m_new 1)) = Some ExternalError"
    by (simp add: ev_fail_def ev_defs fm_defs Let_def upt_rec)
  from run_fits_exception_ends_sweep[OF h1 h2 h3] h1 h2 h3 show ?thesis by blast
qed

subsection \<open>The range check\<close>

text \<open>
  C9. With a valid data cell that the simulation masks, \<^verbatim>\<open>is_datapattern_inrange\<close> is
  false; \<^verbatim>\<open>run_fits\<close> then raises \<^verbatim>\<open>ValueError\<close> after its warning and fits nothing,
  while \<^verbatim>\<open>run_single_fit\<close> on the same manager only warns and fits.
\<close>

theorem run_fits_out_of_range_raises:
  "is_datapattern_inrange ev_out (m_new 1) = Inr False
   \<and> run_fits ev_out [Seq [1]] False False (m_new 1) = (Some ValueError, m_new 1)
   \<and> fst (run_single_fit ev_out [Scalar 1] False (m_new 1)) = None
   \<and> map h_p (df_horizontal (snd (run_single_fit ev_out [Scalar 1] False (m_new 1)))) = [[1]]"
  by (simp add: ev_out_def run_single_fit_def ev_defs fm_defs Let_def upt_rec)

section \<open>Initial values of the next fit\<close>

lemma distinct_parameter_keys: "distinct (compute_parameter_keys n)"
  by (auto simp: compute_parameter_keys_def distinct_map inj_on_def)

lemma seed_loop_ok:
  assumes "distinct ks"
    and "i + length (filter (\<lambda>k. p_fixed k = None) ks) \<le> length x"
  shows "\<exists>niv'. seed_loop ks p_fixed x i niv = Inr niv'
          \<and> (\<forall>j < length ks. p_fixed (ks ! j) = None \<longrightarrow>
                niv' (ks ! j)
                  = Some (x ! (i + length (filter (\<lambda>k. p_fixed k = None) (take j ks)))
                          + 1 / 100000))
          \<and> (\<forall>k. k \<notin> set ks \<or> p_fixed k \<noteq> None \<longrightarrow> niv' k = niv k)"
  using assms
proof (induction ks arbitrary: i niv)
  case Nil
  then show ?case by simp
next
  case (Cons k ks)
  show ?case
  proof (cases "p_fixed k = None")
    case False
    from Cons.prems False have
      "distinct ks" "i + length (filter (\<lambda>k. p_fixed k = None) ks) \<le> length x"
      by simp_all
    from Cons.IH[OF this, of niv] obtain niv' where
      s: "seed_loop ks p_fixed x i niv = Inr niv'"
      and a: "\<forall>j < length ks. p_fixed (ks ! j) = None \<longrightarrow>
                niv' (ks ! j)
                  = Some (x ! (i + length (filter (\<lambda>k. p_fixed k = None) (take j ks)))
                          + 1 / 100000)"
      and b: "\<forall>k. k \<notin> set ks \<or> p_fixed k \<noteq> None \<longrightarrow> niv' k = niv k"
      by blast
    have s': "seed_loop (k # ks) p_fixed x i niv = Inr niv'" using s False by simp
    have a': "niv' ((k # ks) ! j)
                  = Some (x ! (i + length (filter (\<lambda>k. p_fixed k = None) (take j (k # ks))))
                          + 1 / 100000)"
      if "j < length (k # ks)" "p_fixed ((k # ks) ! j) = None" for j
    proof (cases j)
      case 0
      with that False show ?thesis by simp
    next
      case (Suc j')
      with that a False show ?thesis by auto
    qed
    have b': "niv' k' = niv k'" if "k' \<notin> set (k # ks) \<or> p_fixed k' \<noteq> None" for k'
      using that b False by auto
    show ?thesis using s' a' b' by blast
  next
    case True
    from Cons.prems True have il: "i < length x"
      and d: "distinct ks" and kn: "k \<notin> set ks"
      and l: "(i + 1) + length (filter (\<lambda>k. p_fixed k = None) ks) \<le> length x"
      by simp_all
    let ?niv = "niv(k \<mapsto> x ! i + 1 / 100000)"
    from Cons.IH[OF d l, of ?niv] obtain niv' where
      s: "seed_loop ks p_fixed x (i + 1) ?niv = Inr niv'"
      and a: "\<forall>j < length ks. p_fixed (ks ! j) = None \<longrightarrow>
                niv' (ks ! j)
                  = Some (x ! ((i + 1) + length (filter (\<lambda>k. p_fixed k = None) (take j ks)))
                          + 1 / 100000)"
      and b: "\<forall>k'. k' \<notin> set ks \<or> p_fixed k' \<noteq> None \<longrightarrow> niv' k' = ?niv k'"
      by blast
    have s': "seed_loop (k # ks) p_fixed x i niv = Inr niv'" using s True il by simp
    have a': "niv' ((k # ks) ! j)
                  = Some (x ! (i + length (filter (\<lambda>k. p_fixed k = None) (take j (k # ks))))
                          + 1 / 100000)"
      if "j < length (k # ks)" "p_fixed ((k # ks) ! j) = None" for j
    proof (cases j)
      case 0
      have "niv' k = ?niv k" using b kn by blast
      with 0 show ?thesis by simp
    next
      case (Suc j')
      with that a True show ?thesis by simp
    qed
    have b': "niv' k' = niv k'" if "k' \<notin> set (k # ks) \<or> p_fixed k' \<noteq> None" for k'
    proof -
      have "k' \<noteq> k" using that True by auto
      moreover have "niv' k' = ?niv k'" using that b by auto
      ultimately show ?thesis by simp
    qed
    show ?thesis using s' a' b' by blast
  qed
qed

lemma seed_loop_short:
  assumes "length x < i + length (filter (\<lambda>k. p_fixed k = None) ks)" and "i \<le> length x"
  shows "seed_loop ks p_fixed x i niv = Inl IndexError"
  using assms
proof (induction ks arbitrary: i niv)
  case Nil
  then show ?case by simp
next
  case (Cons k ks)
  show ?case
  proof (cases "p_fixed k = None")
    case False
    with Cons show ?thesis by simp
  next
    case True
    show ?thesis
    proof (cases "i < length x")
      case False
      with True show ?thesis by simp
    next
      case il: True
      have "seed_loop ks p_fixed x (i + 1) (niv(k \<mapsto> x ! i + 1 / 100000)) = Inl IndexError"
        using Cons.prems True il by (intro Cons.IH) simp_all
      then show ?thesis using True il by simp
    qed
  qed
qed


lemma compute_initial_fit_values_nth:
  assumes "j < length (compute_parameter_keys n)"
  shows "fst (compute_initial_fit_values dp n p_fixed p_initial) ! j
           = fst (initial_entry dp n p_fixed p_initial (compute_parameter_keys n ! j))"
    and "snd (compute_initial_fit_values dp n p_fixed p_initial) ! j
           = snd (initial_entry dp n p_fixed p_initial (compute_parameter_keys n ! j))"
  using assms by (simp_all add: compute_initial_fit_values_def Let_def)

lemma compute_initial_fit_values_length:
  "length (fst (compute_initial_fit_values dp n p_fixed p_initial))
     = length (compute_parameter_keys n)"
  "length (snd (compute_initial_fit_values dp n p_fixed p_initial))
     = length (compute_parameter_keys n)"
  by (simp_all add: compute_initial_fit_values_def Let_def)

lemma get_initial_values_short:
  assumes "pass_results" "last_fit m = Some lf" "results lf = Some r" "res_success r"
    and "length (res_x r)
           < length (filter (\<lambda>k. p_fixed_values m k = None) (compute_parameter_keys (n_sites m)))"
  shows "get_initial_values m pass_results = Inl IndexError"
  using assms seed_loop_short[of "res_x r" 0 "p_fixed_values m"
      "compute_parameter_keys (n_sites m)" "p_initial_values m"]
  by (simp add: get_initial_values_def p0_pass_def)

text \<open>
  What \<^verbatim>\<open>_get_initial_values\<close> returns. It uses the configured initial values unchanged
  unless \<^verbatim>\<open>pass_results\<close> is set, a last fit exists and its result reports success. In that
  case, provided the last result vector has an entry for every parameter the user did not
  fix, a fixed parameter keeps its fixed value (and its fixed flag), and every other
  parameter starts at the entry of the last result vector at its position among the
  non-fixed parameters, plus \<open>1e-5\<close>, and is free.
\<close>

theorem get_initial_values_seeding:
  "(\<not> pass_results \<or> last_fit m = None
      \<or> (\<exists>lf' r'. last_fit m = Some lf' \<and> results lf' = Some r' \<and> \<not> res_success r')
    \<longrightarrow> get_initial_values m pass_results
          = Inr (compute_initial_fit_values (dp_pattern m) (n_sites m)
                   (p_fixed_values m) (p_initial_values m)))
   \<and> (pass_results \<and> last_fit m = Some lf \<and> results lf = Some r \<and> res_success r
        \<and> length (filter (\<lambda>k. p_fixed_values m k = None) (compute_parameter_keys (n_sites m)))
             \<le> length (res_x r)
      \<longrightarrow> (\<exists>p0 p_fix. get_initial_values m pass_results = Inr (p0, p_fix)
             \<and> length p0 = length (compute_parameter_keys (n_sites m))
             \<and> length p_fix = length (compute_parameter_keys (n_sites m))
             \<and> (\<forall>j < length (compute_parameter_keys (n_sites m)).
                   (case p_fixed_values m (compute_parameter_keys (n_sites m) ! j) of
                      Some v \<Rightarrow> p0 ! j = v \<and> p_fix ! j
                    | None \<Rightarrow>
                        p0 ! j
                          = res_x r ! length (filter (\<lambda>k. p_fixed_values m k = None)
                                               (take j (compute_parameter_keys (n_sites m))))
                            + 1 / 100000
                        \<and> \<not> p_fix ! j))))"
proof (intro conjI impI)
  assume "\<not> pass_results \<or> last_fit m = None
      \<or> (\<exists>lf' r'. last_fit m = Some lf' \<and> results lf' = Some r' \<and> \<not> res_success r')"
  then have "p0_pass m pass_results = Inr False"
    by (auto simp: p0_pass_def)
  then show "get_initial_values m pass_results
          = Inr (compute_initial_fit_values (dp_pattern m) (n_sites m)
                   (p_fixed_values m) (p_initial_values m))"
    by (simp add: get_initial_values_def)
next
  let ?keys = "compute_parameter_keys (n_sites m)"
  let ?fx = "p_fixed_values m"
  assume h: "pass_results \<and> last_fit m = Some lf \<and> results lf = Some r \<and> res_success r
        \<and> length (filter (\<lambda>k. ?fx k = None) ?keys) \<le> length (res_x r)"
  then have pp: "p0_pass m pass_results = Inr True" by (simp add: p0_pass_def)
  from h have len: "0 + length (filter (\<lambda>k. ?fx k = None) ?keys) \<le> length (res_x r)" by simp
  from seed_loop_ok[OF distinct_parameter_keys len, of "p_initial_values m"] obtain niv where
    s: "seed_loop ?keys ?fx (res_x r) 0 (p_initial_values m) = Inr niv"
    and a: "\<forall>j < length ?keys. ?fx (?keys ! j) = None \<longrightarrow>
              niv (?keys ! j)
                = Some (res_x r ! (0 + length (filter (\<lambda>k. ?fx k = None) (take j ?keys)))
                        + 1 / 100000)"
    by blast
  let ?res = "compute_initial_fit_values (dp_pattern m) (n_sites m) ?fx niv"
  have g: "get_initial_values m pass_results = Inr (fst ?res, snd ?res)"
    using pp s h by (simp add: get_initial_values_def)
  have e: "case ?fx (?keys ! j) of
             Some v \<Rightarrow> fst ?res ! j = v \<and> snd ?res ! j
           | None \<Rightarrow> fst ?res ! j
                       = res_x r ! length (filter (\<lambda>k. ?fx k = None) (take j ?keys)) + 1 / 100000
                     \<and> \<not> snd ?res ! j"
    if j: "j < length ?keys" for j
  proof (cases "?fx (?keys ! j)")
    case None
    with a j have "niv (?keys ! j)
        = Some (res_x r ! length (filter (\<lambda>k. ?fx k = None) (take j ?keys)) + 1 / 100000)"
      by simp
    with None show ?thesis
      by (simp add: compute_initial_fit_values_nth[OF j] initial_entry_def)
  next
    case (Some v)
    then show ?thesis
      by (simp add: compute_initial_fit_values_nth[OF j] initial_entry_def)
  qed
  show "\<exists>p0 p_fix. get_initial_values m pass_results = Inr (p0, p_fix)
             \<and> length p0 = length ?keys \<and> length p_fix = length ?keys
             \<and> (\<forall>j < length ?keys.
                   (case ?fx (?keys ! j) of
                      Some v \<Rightarrow> p0 ! j = v \<and> p_fix ! j
                    | None \<Rightarrow>
                        p0 ! j = res_x r ! length (filter (\<lambda>k. ?fx k = None) (take j ?keys))
                                 + 1 / 100000
                        \<and> \<not> p_fix ! j))"
    using g e compute_initial_fit_values_length
    by (intro exI[of _ "fst ?res"] exI[of _ "snd ?res"]) simp
qed

theorem get_initial_values_seeding_witness:
  "last_fit (m_new 1) = None
   \<and> get_initial_values (m_new 1) True
        = Inr (compute_initial_fit_values (dp_pattern (m_new 1)) (n_sites (m_new 1))
                 (p_fixed_values (m_new 1)) (p_initial_values (m_new 1)))
   \<and> (True \<and> last_fit m_seed = Some lf_seed
        \<and> results lf_seed = Some \<lparr>res_fun = 3, res_success = True, res_x = [1, 2, 3, 4]\<rparr>
        \<and> res_success \<lparr>res_fun = 3, res_success = True, res_x = [1, 2, 3, 4]\<rparr>
        \<and> length (filter (\<lambda>k. p_fixed_values m_seed k = None)
                    (compute_parameter_keys (n_sites m_seed)))
             \<le> length (res_x \<lparr>res_fun = 3, res_success = True, res_x = [1, 2, 3, 4]\<rparr>))
   \<and> (\<exists>p0 p_fix. get_initial_values m_seed True = Inr (p0, p_fix)
         \<and> length p0 = length (compute_parameter_keys (n_sites m_seed))
         \<and> length p_fix = length (compute_parameter_keys (n_sites m_seed))
         \<and> (\<forall>j < length (compute_parameter_keys (n_sites m_seed)).
               (case p_fixed_values m_seed (compute_parameter_keys (n_sites m_seed) ! j) of
                  Some v \<Rightarrow> p0 ! j = v \<and> p_fix ! j
                | None \<Rightarrow>
                    p0 ! j
                      = res_x \<lparr>res_fun = 3, res_success = True, res_x = [1, 2, 3, 4]\<rparr>
                          ! length (filter (\<lambda>k. p_fixed_values m_seed k = None)
                                      (take j (compute_parameter_keys (n_sites m_seed))))
                        + 1 / 100000
                    \<and> \<not> p_fix ! j)))
   \<and> get_initial_values m_seed True
        = Inr ([1 + 1 / 100000, 2 + 1 / 100000, 3 + 1 / 100000, 50, 1 / 5, 4 + 1 / 100000],
               [False, False, False, True, True, False])"
proof -
  let ?r = "\<lparr>res_fun = 3, res_success = True, res_x = [1, 2, 3, 4]\<rparr>"
  have a1: "\<not> True \<or> last_fit (m_new 1) = None
      \<or> (\<exists>lf' r'. last_fit (m_new 1) = Some lf' \<and> results lf' = Some r' \<and> \<not> res_success r')"
    by (simp add: m_new_def)
  have a2: "True \<and> last_fit m_seed = Some lf_seed \<and> results lf_seed = Some ?r
        \<and> res_success ?r
        \<and> length (filter (\<lambda>k. p_fixed_values m_seed k = None)
                    (compute_parameter_keys (n_sites m_seed)))
             \<le> length (res_x ?r)"
    by (simp add: m_seed_def lf_seed_def m_new_def compute_parameter_keys_def)
  have v: "get_initial_values m_seed True
        = Inr ([1 + 1 / 100000, 2 + 1 / 100000, 3 + 1 / 100000, 50, 1 / 5, 4 + 1 / 100000],
               [False, False, False, True, True, False])"
    by (simp add: m_seed_def lf_seed_def m_new_def fm_defs)
  have n: "last_fit (m_new 1) = None" by (simp add: m_new_def)
  from get_initial_values_seeding[of True "m_new 1"] a1
    get_initial_values_seeding[of True m_seed lf_seed ?r] a2 v n
  show ?thesis by blast
qed

subsection \<open>Parameters that are fixed by default\<close>

text \<open>
  \<^verbatim>\<open>compute_initial_fit_values\<close> fixes \<open>total_cts\<close> and \<open>sigma\<close> when the user gave neither a
  fixed nor an initial value for them, but the seeding loop skips only the parameters in
  \<^verbatim>\<open>p_fixed_values\<close>. The parameters that are free are then fewer than the ones the loop
  reads an entry for, and a result vector with one coordinate per free parameter is too
  short: the loop raises \<^verbatim>\<open>IndexError\<close>.
\<close>

lemma length_filter_strict:
  assumes "\<forall>x \<in> set xs. P x \<longrightarrow> Q x" and "x \<in> set xs" "Q x" "\<not> P x"
  shows "length (filter P xs) < length (filter Q xs)"
proof -
  have "filter P xs = filter P (filter Q xs)"
    using assms(1) by (induction xs) auto
  moreover have "length (filter P (filter Q xs)) < length (filter Q xs)"
    using assms(2,3,4) by (intro length_filter_less[of x]) simp_all
  ultimately show ?thesis by simp
qed

lemma free_flags_fewer:
  assumes k: "k = Total_cts \<or> k = Sigma" and f: "p_fixed k = None" and i: "p_initial k = None"
  shows "length (filter Not (snd (compute_initial_fit_values dp n p_fixed p_initial)))
           < length (filter (\<lambda>k. p_fixed k = None) (compute_parameter_keys n))"
proof -
  let ?keys = "compute_parameter_keys n"
  let ?free = "\<lambda>k. \<not> snd (initial_entry dp n p_fixed p_initial k)"
  have "filter Not (snd (compute_initial_fit_values dp n p_fixed p_initial))
          = filter Not (map (\<lambda>k. snd (initial_entry dp n p_fixed p_initial k)) ?keys)"
    by (simp add: compute_initial_fit_values_def Let_def comp_def)
  then have l: "length (filter Not (snd (compute_initial_fit_values dp n p_fixed p_initial)))
          = length (filter ?free ?keys)"
    by (simp add: filter_map comp_def)
  have imp: "\<forall>k \<in> set ?keys. ?free k \<longrightarrow> p_fixed k = None"
    by (auto simp: initial_entry_def split: option.splits)
  have kin: "k \<in> set ?keys" using k by (auto simp: compute_parameter_keys_def)
  have nf: "\<not> ?free k" using k f i by (auto simp: initial_entry_def)
  show ?thesis using length_filter_strict[OF imp kin f nf] l by simp
qed

lemma seeding_raises_with_default_fixed:
  assumes "last_fit m = Some lf" "results lf = Some r" "res_success r"
    and shape: "length (res_x r)
                  = length (filter Not (snd (compute_initial_fit_values (dp_pattern m)
                       (n_sites m) (p_fixed_values m) (p_initial_values m))))"
    and k: "k = Total_cts \<or> k = Sigma" "p_fixed_values m k = None" "p_initial_values m k = None"
  shows "get_initial_values m True = Inl IndexError"
proof -
  have "length (filter Not (snd (compute_initial_fit_values (dp_pattern m) (n_sites m)
                  (p_fixed_values m) (p_initial_values m))))
          < length (filter (\<lambda>k. p_fixed_values m k = None)
              (compute_parameter_keys (n_sites m)))"
    using k by (rule free_flags_fewer)
  with shape have lt: "length (res_x r)
          < length (filter (\<lambda>k. p_fixed_values m k = None)
              (compute_parameter_keys (n_sites m)))"
    by linarith
  show ?thesis
    by (rule get_initial_values_short[OF _ assms(1) assms(2) assms(3) lt]) simp
qed

text \<open>
  C10. In the default configuration (nothing fixed or initialised by the user, one site)
  the first fit has four free parameters, \<open>dx\<close>, \<open>dy\<close>, \<open>phi\<close> and \<open>f_p1\<close>, and leaves a
  result vector of four coordinates. With \<^verbatim>\<open>pass_results\<close> the next combination is not
  seeded with the previous optimum plus \<open>1e-5\<close>: \<^verbatim>\<open>_get_initial_values\<close> raises
  \<^verbatim>\<open>IndexError\<close>, \<^verbatim>\<open>run_fits\<close> swallows it, and of three candidates only the first is
  fitted. Without \<^verbatim>\<open>pass_results\<close> all three are.
\<close>

theorem pass_results_default_configuration_raises:
  "snd (compute_initial_fit_values (dp_pattern (m_new 1)) 1 Map.empty Map.empty)
     = [False, False, False, True, True, False]
   \<and> map (\<lambda>ft. res_x (the (results ft)))
        (the (last_fit (snd (single_fit ev_free False True [1] (m_new 1))))
         # []) = [[0, 0, 0, 3 / 20]]
   \<and> get_initial_values (snd (single_fit ev_free False True [1] (m_new 1))) True
       = Inl IndexError
   \<and> fst (single_fit ev_free False True [2] (snd (single_fit ev_free False True [1] (m_new 1))))
       = Some IndexError
   \<and> fst (run_fits ev_free [Seq [1, 2, 3]] True False (m_new 1)) = None
   \<and> map h_p (df_horizontal (snd (run_fits ev_free [Seq [1, 2, 3]] True False (m_new 1))))
       = [[1]]
   \<and> map h_p (df_horizontal (snd (run_fits ev_free [Seq [1, 2, 3]] False False (m_new 1))))
       = [[1], [2], [3]]"
  by (simp add: ev_free_def free_coordinates_def ev_defs fm_defs Let_def upt_rec)

section \<open>The cost functions\<close>

subsection \<open>From the reduced vector to the full tuple\<close>

lemma map_upt_Suc_shift: "map f [0..<Suc n] = f 0 # map (\<lambda>j. f (Suc j)) [0..<n]"
  by (simp add: upt_conv_Cons map_Suc_upt[symmetric] del: upt_Suc)

lemma nth_map_filter_take:
  assumes "j < length ks" "U (ks ! j)"
  shows "map f (filter U ks) ! length (filter U (take j ks)) = f (ks ! j)"
  using assms
proof (induction ks arbitrary: j)
  case Nil
  then show ?case by simp
next
  case (Cons k ks)
  show ?case
  proof (cases j)
    case 0
    with Cons.prems show ?thesis by simp
  next
    case (Suc j')
    with Cons show ?thesis by simp
  qed
qed

lemma length_filter_take_less:
  assumes "j < length ks" "U (ks ! j)"
  shows "length (filter U (take j ks)) < length (filter U ks)"
proof -
  have "ks = take j ks @ ks ! j # drop (Suc j) ks" using assms(1) by (simp add: id_take_nth_drop)
  then have "filter U ks = filter U (take j ks) @ filter U (ks ! j # drop (Suc j) ks)"
    by (metis filter_append)
  then show ?thesis using assms(2) by simp
qed

lemma params_temp_loop_ok:
  assumes "di + length (filter (\<lambda>k. par_use (parameters_dict ft k)) ks) \<le> length params"
    and "di + length (filter (\<lambda>k. par_use (parameters_dict ft k)) ks) \<le> length sc"
  shows "params_temp_loop ft ks params sc di acc
           = Inr (acc @ map (\<lambda>j. if par_use (parameters_dict ft (ks ! j))
                               then params ! (di + length (filter (\<lambda>k. par_use (parameters_dict ft k)) (take j ks)))
                                    * sc ! (di + length (filter (\<lambda>k. par_use (parameters_dict ft k)) (take j ks)))
                               else par_p0 (parameters_dict ft (ks ! j)))
                          [0..<length ks])"
  using assms
proof (induction ks arbitrary: di acc)
  case Nil
  then show ?case by simp
next
  case (Cons k ks)
  show ?case
  proof (cases "par_use (parameters_dict ft k)")
    case True
    with Cons.prems have b: "di < length params" "di < length sc"
      "(di + 1) + length (filter (\<lambda>k. par_use (parameters_dict ft k)) ks) \<le> length params"
      "(di + 1) + length (filter (\<lambda>k. par_use (parameters_dict ft k)) ks) \<le> length sc"
      by simp_all
    show ?thesis
      using True b(1,2) Cons.IH[OF b(3,4)]
      by (simp add: map_upt_Suc_shift del: upt_Suc)
  next
    case False
    with Cons.prems have b:
      "di + length (filter (\<lambda>k. par_use (parameters_dict ft k)) ks) \<le> length params"
      "di + length (filter (\<lambda>k. par_use (parameters_dict ft k)) ks) \<le> length sc"
      by simp_all
    show ?thesis
      using False Cons.IH[OF b]
      by (simp add: map_upt_Suc_shift del: upt_Suc)
  qed
qed

lemma params_temp_loop_short:
  assumes "length params < di + length (filter (\<lambda>k. par_use (parameters_dict ft k)) ks)"
    and "di \<le> length params"
  shows "params_temp_loop ft ks params sc di acc = Inl IndexError"
  using assms
proof (induction ks arbitrary: di acc)
  case Nil
  then show ?case by simp
next
  case (Cons k ks)
  show ?case
  proof (cases "par_use (parameters_dict ft k)")
    case False
    with Cons show ?thesis by simp
  next
    case True
    show ?thesis
    proof (cases "di < length params \<and> di < length sc")
      case False
      with True show ?thesis by auto
    next
      case il: True
      have "params_temp_loop ft ks params sc (di + 1)
              (acc @ [params ! di * sc ! di]) = Inl IndexError"
        using Cons.prems True il by (intro Cons.IH) simp_all
      then show ?thesis using True il by simp
    qed
  qed
qed


lemma list8: "length (L :: 'a list) = 8 \<Longrightarrow> L = [L ! 0, L ! 1, L ! 2, L ! 3, L ! 4, L ! 5, L ! 6, L ! 7]"
  by (auto simp: list_eq_iff_nth_eq nth_Cons' less_Suc_eq eval_nat_numeral)

lemma scale_vector_nth:
  assumes "j < length parameters_order" "par_use (parameters_dict ft (parameters_order ! j))"
    and "length (filter (\<lambda>k. par_use (parameters_dict ft k)) parameters_order) \<le> n"
  shows "scale_vector ft enable_scale n
           ! length (filter (\<lambda>k. par_use (parameters_dict ft k)) (take j parameters_order))
         = (if enable_scale then par_scale (parameters_dict ft (parameters_order ! j)) else 1)"
proof (cases enable_scale)
  case True
  then show ?thesis
    using nth_map_filter_take[OF assms(1), of "\<lambda>k. par_use (parameters_dict ft k)"
        "\<lambda>k. par_scale (parameters_dict ft k)"] assms(2)
    by (simp add: scale_vector_def get_p0_scale_def)
next
  case False
  have "length (filter (\<lambda>k. par_use (parameters_dict ft k)) (take j parameters_order)) < n"
    using length_filter_take_less[OF assms(1), of "\<lambda>k. par_use (parameters_dict ft k)"] assms(2,3)
    by simp
  then show ?thesis using False by (simp add: scale_vector_def)
qed

text \<open>
  C1. Given a reduced vector with at least one entry per parameter in use, both cost
  functions rebuild the tuple \<open>dx, dy, phi, total_cts, sigma, f_p1, f_p2, f_p3\<close> in that
  order: the entry of a parameter in use is \<open>params[i] * scale\<close>, \<open>i\<close> its position among
  the parameters in use and the scale its own when scaling is enabled and \<open>1\<close> otherwise;
  the entry of any other parameter is its \<open>p0\<close>. The fractions vector handed to the
  generator holds, after element 0, the entries \<open>f_p1\<close>, \<open>f_p2\<close>, \<open>f_p3\<close> of the patterns in
  use, in that order, and element 0 is one minus the sum of exactly those entries, as it
  is (no clamping). The total counts are those of the tuple for chi-square and \<open>1\<close> for the
  likelihood.
\<close>

theorem cost_call_reconstructs:
  assumes len: "length (filter (\<lambda>k. par_use (parameters_dict ft k)) parameters_order)
                  \<le> length params"
  shows "parameters_order = [Dx, Dy, Phi, Total_cts, Sigma, F_p 1, F_p 2, F_p 3]
    \<and> (\<exists>dx dy phi total_cts sigma f_p1 f_p2 f_p3.
         params_temp_loop ft parameters_order params
             (scale_vector ft enable_scale (length params)) 0 []
           = Inr [dx, dy, phi, total_cts, sigma, f_p1, f_p2, f_p3]
       \<and> (\<forall>j < length parameters_order.
             [dx, dy, phi, total_cts, sigma, f_p1, f_p2, f_p3] ! j
               = (if par_use (parameters_dict ft (parameters_order ! j))
                  then params ! length (filter (\<lambda>k. par_use (parameters_dict ft k))
                                          (take j parameters_order))
                       * (if enable_scale
                          then par_scale (parameters_dict ft (parameters_order ! j)) else 1)
                  else par_p0 (parameters_dict ft (parameters_order ! j))))
       \<and> chi_square_call ft params enable_scale
           = (case pattern_generator ft of
                None \<Rightarrow> Inl AttributeError
              | Some gen \<Rightarrow>
                  pearson_chi2 (data_pattern ft)
                    (gen dx dy phi
                       ((1 - ((if par_use (parameters_dict ft (Pattern 1)) then f_p1 else 0)
                              + (if par_use (parameters_dict ft (Pattern 2)) then f_p2 else 0)
                              + (if par_use (parameters_dict ft (Pattern 3)) then f_p3 else 0)))
                        # ((if par_use (parameters_dict ft (Pattern 1)) then [f_p1] else [])
                           @ (if par_use (parameters_dict ft (Pattern 2)) then [f_p2] else [])
                           @ (if par_use (parameters_dict ft (Pattern 3)) then [f_p3] else [])))
                       total_cts sigma))
       \<and> log_likelihood_call ft params enable_scale
           = (case pattern_generator ft of
                None \<Rightarrow> Inl AttributeError
              | Some gen \<Rightarrow>
                  neg_log_likelihood (data_pattern ft)
                    (gen dx dy phi
                       ((1 - ((if par_use (parameters_dict ft (Pattern 1)) then f_p1 else 0)
                              + (if par_use (parameters_dict ft (Pattern 2)) then f_p2 else 0)
                              + (if par_use (parameters_dict ft (Pattern 3)) then f_p3 else 0)))
                        # ((if par_use (parameters_dict ft (Pattern 1)) then [f_p1] else [])
                           @ (if par_use (parameters_dict ft (Pattern 2)) then [f_p2] else [])
                           @ (if par_use (parameters_dict ft (Pattern 3)) then [f_p3] else [])))
                       1 sigma)))"
proof -
  let ?U = "\<lambda>k. par_use (parameters_dict ft k)"
  let ?sc = "scale_vector ft enable_scale (length params)"
  let ?g = "\<lambda>j. if ?U (parameters_order ! j)
                 then params ! (0 + length (filter ?U (take j parameters_order)))
                      * ?sc ! (0 + length (filter ?U (take j parameters_order)))
                 else par_p0 (parameters_dict ft (parameters_order ! j))"
  let ?L = "map ?g [0..<length parameters_order]"
  have lsc: "length (filter ?U parameters_order) \<le> length ?sc"
    using len by (simp add: scale_vector_def get_p0_scale_def)
  have loop: "params_temp_loop ft parameters_order params ?sc 0 [] = Inr ?L"
    using params_temp_loop_ok[of 0 ft parameters_order params ?sc "[]"] len lsc by simp
  have l8: "length ?L = 8" by (simp add: parameters_order_def)
  have nth: "?L ! j = (if ?U (parameters_order ! j)
                  then params ! length (filter ?U (take j parameters_order))
                       * (if enable_scale
                          then par_scale (parameters_dict ft (parameters_order ! j)) else 1)
                  else par_p0 (parameters_dict ft (parameters_order ! j)))"
    if j: "j < length parameters_order" for j
    using j scale_vector_nth[OF j _ len, of enable_scale] by simp
  define dx dy phi total_cts sigma f_p1 f_p2 f_p3 where
    "dx = ?L ! 0" and "dy = ?L ! 1" and "phi = ?L ! 2" and "total_cts = ?L ! 3"
    and "sigma = ?L ! 4" and "f_p1 = ?L ! 5" and "f_p2 = ?L ! 6" and "f_p3 = ?L ! 7"
  have L: "?L = [dx, dy, phi, total_cts, sigma, f_p1, f_p2, f_p3]"
    unfolding dx_def dy_def phi_def total_cts_def sigma_def f_p1_def f_p2_def f_p3_def
    using list8[OF l8] .
  have loop': "params_temp_loop ft parameters_order params ?sc 0 []
      = Inr [dx, dy, phi, total_cts, sigma, f_p1, f_p2, f_p3]"
    using loop L by simp
  have nth': "\<forall>j < length parameters_order.
             [dx, dy, phi, total_cts, sigma, f_p1, f_p2, f_p3] ! j
               = (if ?U (parameters_order ! j)
                  then params ! length (filter ?U (take j parameters_order))
                       * (if enable_scale
                          then par_scale (parameters_dict ft (parameters_order ! j)) else 1)
                  else par_p0 (parameters_dict ft (parameters_order ! j)))"
    using nth L by metis
  let ?act = "(if ?U (Pattern 1) then [f_p1] else [])
              @ (if ?U (Pattern 2) then [f_p2] else [])
              @ (if ?U (Pattern 3) then [f_p3] else [])"
  let ?bg = "1 - ((if ?U (Pattern 1) then f_p1 else 0)
                  + (if ?U (Pattern 2) then f_p2 else 0)
                  + (if ?U (Pattern 3) then f_p3 else 0))"
  have fr: "fractions_of ft f_p1 f_p2 f_p3 = ?act" by (simp add: fractions_of_def)
  have bg: "1 - sum_list ?act = ?bg" by simp
  have c: "chi_square_call ft params enable_scale
           = (case pattern_generator ft of
                None \<Rightarrow> Inl AttributeError
              | Some gen \<Rightarrow>
                  pearson_chi2 (data_pattern ft) (gen dx dy phi (?bg # ?act) total_cts sigma))"
    unfolding bg[symmetric]
    by (cases "pattern_generator ft")
       (simp_all only: chi_square_call_def loop' chi_square_def Let_def fr
          sum.case list.case option.case append_Cons append_Nil)
  have l: "log_likelihood_call ft params enable_scale
           = (case pattern_generator ft of
                None \<Rightarrow> Inl AttributeError
              | Some gen \<Rightarrow>
                  neg_log_likelihood (data_pattern ft) (gen dx dy phi (?bg # ?act) 1 sigma))"
    unfolding bg[symmetric]
    by (cases "pattern_generator ft")
       (simp_all only: log_likelihood_call_def loop' log_likelihood_def Let_def fr
          sum.case list.case option.case append_Cons append_Nil)
  show ?thesis using loop' nth' c l parameters_order_def by blast
qed


theorem cost_call_reconstructs_witness:
  "length (filter (\<lambda>k. par_use (parameters_dict ft_two k)) parameters_order)
     \<le> length [3, 7, 20, 1 / 2, 1 :: real]
   \<and> params_temp_loop ft_two parameters_order [3, 7, 20, 1 / 2, 1]
        (scale_vector ft_two True (length [3, 7, 20, 1 / 2, 1 :: real])) 0 []
       = Inr [6, 3, 7, 200, 0, 1 / 2, 1, 1 / 4]
   \<and> chi_square_call ft_two [3, 7, 20, 1 / 2, 1] True
       = pearson_chi2 (data_pattern ft_two) (gen_echo 6 3 7 [- (1 / 2), 1 / 2, 1] 200 0)
   \<and> log_likelihood_call ft_two [3, 7, 20, 1 / 2, 1] True
       = neg_log_likelihood (data_pattern ft_two) (gen_echo 6 3 7 [- (1 / 2), 1 / 2, 1] 1 0)
   \<and> chi_square_call ft_two [3, 7, 20, 1 / 2, 1] True = Inr 41"
proof -
  let ?p = "[3, 7, 20, 1 / 2, 1 :: real]"
  have h: "length (filter (\<lambda>k. par_use (parameters_dict ft_two k)) parameters_order)
     \<le> length ?p"
    by (simp add: parameters_order_def ft_two_def pd_ex_def)
  have v: "params_temp_loop ft_two parameters_order ?p
        (scale_vector ft_two True (length ?p)) 0 []
       = Inr [6, 3, 7, 200, 0, 1 / 2, 1, 1 / 4]"
    by (simp add: scale_vector_def get_p0_scale_def parameters_order_def ft_two_def pd_ex_def)
  have u: "par_use (parameters_dict ft_two (Pattern 1))"
    "par_use (parameters_dict ft_two (Pattern 2))"
    "\<not> par_use (parameters_dict ft_two (Pattern 3))"
    "pattern_generator ft_two = Some gen_echo"
    by (simp_all add: ft_two_def pd_ex_def)
  from cost_call_reconstructs[OF h, of True]
  obtain dx dy phi total_cts sigma f_p1 f_p2 f_p3 where
    t: "params_temp_loop ft_two parameters_order ?p (scale_vector ft_two True (length ?p)) 0 []
          = Inr [dx, dy, phi, total_cts, sigma, f_p1, f_p2, f_p3]"
    and c: "chi_square_call ft_two ?p True
           = (case pattern_generator ft_two of
                None \<Rightarrow> Inl AttributeError
              | Some gen \<Rightarrow>
                  pearson_chi2 (data_pattern ft_two)
                    (gen dx dy phi
                       ((1 - ((if par_use (parameters_dict ft_two (Pattern 1)) then f_p1 else 0)
                              + (if par_use (parameters_dict ft_two (Pattern 2)) then f_p2 else 0)
                              + (if par_use (parameters_dict ft_two (Pattern 3)) then f_p3 else 0)))
                        # ((if par_use (parameters_dict ft_two (Pattern 1)) then [f_p1] else [])
                           @ (if par_use (parameters_dict ft_two (Pattern 2)) then [f_p2] else [])
                           @ (if par_use (parameters_dict ft_two (Pattern 3)) then [f_p3] else [])))
                       total_cts sigma))"
    and l: "log_likelihood_call ft_two ?p True
           = (case pattern_generator ft_two of
                None \<Rightarrow> Inl AttributeError
              | Some gen \<Rightarrow>
                  neg_log_likelihood (data_pattern ft_two)
                    (gen dx dy phi
                       ((1 - ((if par_use (parameters_dict ft_two (Pattern 1)) then f_p1 else 0)
                              + (if par_use (parameters_dict ft_two (Pattern 2)) then f_p2 else 0)
                              + (if par_use (parameters_dict ft_two (Pattern 3)) then f_p3 else 0)))
                        # ((if par_use (parameters_dict ft_two (Pattern 1)) then [f_p1] else [])
                           @ (if par_use (parameters_dict ft_two (Pattern 2)) then [f_p2] else [])
                           @ (if par_use (parameters_dict ft_two (Pattern 3)) then [f_p3] else [])))
                       1 sigma))"
    by blast
  from t v have e: "dx = 6" "dy = 3" "phi = 7" "total_cts = 200" "sigma = 0"
    "f_p1 = 1 / 2" "f_p2 = 1" "f_p3 = 1 / 4"
    by simp_all
  have c': "chi_square_call ft_two ?p True
       = pearson_chi2 (data_pattern ft_two) (gen_echo 6 3 7 [- (1 / 2), 1 / 2, 1] 200 0)"
    using c u unfolding e by simp
  have l': "log_likelihood_call ft_two ?p True
       = neg_log_likelihood (data_pattern ft_two) (gen_echo 6 3 7 [- (1 / 2), 1 / 2, 1] 1 0)"
    using l u unfolding e by simp
  have n: "pearson_chi2 (data_pattern ft_two) (gen_echo 6 3 7 [- (1 / 2), 1 / 2, 1] 200 0)
             = Inr 41"
    by (simp add: ft_two_def gen_echo_def pearson_chi2_def valid_cells_def Let_def
          power2_eq_square)
  show ?thesis using h v c' l' n by simp
qed

subsection \<open>The chi-square score\<close>




section \<open>The optimisation driver\<close>

lemma get_p0_loop_length:
  "get_p0_loop ft ks acc = Inr p0 \<Longrightarrow>
     length p0 = length acc + length (filter (\<lambda>k. par_use (parameters_dict ft k)) ks)"
  by (induction ks arbitrary: acc) (auto split: if_splits)

lemma get_p0_length:
  "get_p0 ft = Inr p0 \<Longrightarrow>
     length p0 = length (filter (\<lambda>k. par_use (parameters_dict ft k)) parameters_order)"
  using get_p0_loop_length[of ft parameters_order "[]" p0] by (simp add: get_p0_def)

lemma write_back_ok:
  assumes "distinct ks"
    and "di + length (filter U ks) \<le> length x"
    and "\<forall>k. par_use (pd k) = U k \<and> par_scale (pd k) = S k \<and> par_p0 (pd k) = P k"
  shows "\<exists>pd' x'. write_back ks pd x di = Inr (pd', x')
          \<and> length x' = length x
          \<and> (\<forall>j < length ks.
                par_value (pd' (ks ! j))
                  = Some (if U (ks ! j)
                          then x ! (di + length (filter U (take j ks))) * S (ks ! j)
                          else P (ks ! j)))
          \<and> (\<forall>k. k \<notin> set ks \<longrightarrow> pd' k = pd k)
          \<and> (\<forall>k. par_use (pd' k) = U k \<and> par_scale (pd' k) = S k \<and> par_p0 (pd' k) = P k)"
  using assms
proof (induction ks arbitrary: di x pd)
  case Nil
  then show ?case by simp
next
  case (Cons k ks)
  from Cons.prems have d: "distinct ks" and kn: "k \<notin> set ks" by simp_all
  show ?case
  proof (cases "U k")
    case False
    let ?pd = "pd(k := (pd k)\<lparr>par_value := Some (par_p0 (pd k))\<rparr>)"
    have l: "di + length (filter U ks) \<le> length x" using Cons.prems False by simp
    have inv: "\<forall>k. par_use (?pd k) = U k \<and> par_scale (?pd k) = S k \<and> par_p0 (?pd k) = P k"
      using Cons.prems(3) by simp
    from Cons.IH[OF d l inv] obtain pd' x' where
      w: "write_back ks ?pd x di = Inr (pd', x')" and lx: "length x' = length x"
      and a: "\<forall>j < length ks. par_value (pd' (ks ! j))
                  = Some (if U (ks ! j)
                          then x ! (di + length (filter U (take j ks))) * S (ks ! j)
                          else P (ks ! j))"
      and b: "\<forall>k'. k' \<notin> set ks \<longrightarrow> pd' k' = ?pd k'"
      and c: "\<forall>k. par_use (pd' k) = U k \<and> par_scale (pd' k) = S k \<and> par_p0 (pd' k) = P k"
      by blast
    have w': "write_back (k # ks) pd x di = Inr (pd', x')"
      using w False Cons.prems(3) by simp
    have a': "par_value (pd' ((k # ks) ! j))
                  = Some (if U ((k # ks) ! j)
                          then x ! (di + length (filter U (take j (k # ks)))) * S ((k # ks) ! j)
                          else P ((k # ks) ! j))"
      if "j < length (k # ks)" for j
    proof (cases j)
      case 0
      have "pd' k = ?pd k" using b kn by blast
      with 0 False Cons.prems(3) show ?thesis by simp
    next
      case (Suc j')
      with that a False show ?thesis by simp
    qed
    have b': "pd' k' = pd k'" if "k' \<notin> set (k # ks)" for k'
      using that b by auto
    show ?thesis using w' lx a' b' c by blast
  next
    case True
    let ?x = "x[di := x ! di * par_scale (pd k)]"
    let ?pd = "pd(k := (pd k)\<lparr>par_value := Some (?x ! di)\<rparr>)"
    have il: "di < length x" using Cons.prems True by simp
    have l: "(di + 1) + length (filter U ks) \<le> length ?x" using Cons.prems True by simp
    have inv: "\<forall>k. par_use (?pd k) = U k \<and> par_scale (?pd k) = S k \<and> par_p0 (?pd k) = P k"
      using Cons.prems(3) by simp
    from Cons.IH[OF d l inv] obtain pd' x' where
      w: "write_back ks ?pd ?x (di + 1) = Inr (pd', x')" and lx: "length x' = length ?x"
      and a: "\<forall>j < length ks. par_value (pd' (ks ! j))
                  = Some (if U (ks ! j)
                          then ?x ! ((di + 1) + length (filter U (take j ks))) * S (ks ! j)
                          else P (ks ! j))"
      and b: "\<forall>k'. k' \<notin> set ks \<longrightarrow> pd' k' = ?pd k'"
      and c: "\<forall>k. par_use (pd' k) = U k \<and> par_scale (pd' k) = S k \<and> par_p0 (pd' k) = P k"
      by blast
    have w': "write_back (k # ks) pd x di = Inr (pd', x')"
      using w True il Cons.prems(3) by (simp add: Let_def)
    have a': "par_value (pd' ((k # ks) ! j))
                  = Some (if U ((k # ks) ! j)
                          then x ! (di + length (filter U (take j (k # ks)))) * S ((k # ks) ! j)
                          else P ((k # ks) ! j))"
      if "j < length (k # ks)" for j
    proof (cases j)
      case 0
      have "pd' k = ?pd k" using b kn by blast
      with 0 True il Cons.prems(3) show ?thesis by simp
    next
      case (Suc j')
      with that a True show ?thesis by simp
    qed
    have b': "pd' k' = pd k'" if "k' \<notin> set (k # ks)" for k'
      using that b by auto
    show ?thesis using w' lx a' b' c by auto
  qed
qed

lemma distinct_parameters_order: "distinct parameters_order"
  by (simp add: parameters_order_def)


lemma minimize_with_ok:
  assumes p: "get_p0 ft = Inr p0"
    and o: "op_minimize lb (\<lambda>params. call (with_generator lb ft) params True) p0 (bnds_of ft)
              = Inr x"
    and l: "length (filter (\<lambda>k. par_use (parameters_dict ft k)) parameters_order) \<le> length x"
  shows "\<exists>ft'. minimize_with lb call ft = Inr ft'
          \<and> (\<forall>j < length parameters_order.
                par_value (parameters_dict ft' (parameters_order ! j))
                  = Some (if par_use (parameters_dict ft (parameters_order ! j))
                          then x ! length (filter (\<lambda>k. par_use (parameters_dict ft k))
                                             (take j parameters_order))
                               * par_scale (parameters_dict ft (parameters_order ! j))
                          else par_p0 (parameters_dict ft (parameters_order ! j))))
          \<and> (\<forall>k. par_use (parameters_dict ft' k) = par_use (parameters_dict ft k))
          \<and> (\<exists>x'. fits_results ft' = Some x' \<and> length x' = length x)"
proof -
  let ?U = "\<lambda>k. par_use (parameters_dict ft k)"
  let ?S = "\<lambda>k. par_scale (parameters_dict ft k)"
  let ?P = "\<lambda>k. par_p0 (parameters_dict ft k)"
  let ?ft1 = "with_generator lb ft"
  have pd1: "parameters_dict ?ft1 = parameters_dict ft" by (simp add: with_generator_def)
  have inv: "\<forall>k. par_use (parameters_dict ?ft1 k) = ?U k
      \<and> par_scale (parameters_dict ?ft1 k) = ?S k \<and> par_p0 (parameters_dict ?ft1 k) = ?P k"
    by (simp add: pd1)
  have l0: "0 + length (filter ?U parameters_order) \<le> length x" using l by simp
  from write_back_ok[OF distinct_parameters_order l0 inv] obtain pd' x' where
    w: "write_back parameters_order (parameters_dict ?ft1) x 0 = Inr (pd', x')"
    and lx: "length x' = length x"
    and a: "\<forall>j < length parameters_order.
                par_value (pd' (parameters_order ! j))
                  = Some (if ?U (parameters_order ! j)
                          then x ! (0 + length (filter ?U (take j parameters_order)))
                               * ?S (parameters_order ! j)
                          else ?P (parameters_order ! j))"
    and c: "\<forall>k. par_use (pd' k) = ?U k \<and> par_scale (pd' k) = ?S k \<and> par_p0 (pd' k) = ?P k"
    by blast
  let ?ft' = "?ft1\<lparr>parameters_dict := pd', fits_results := Some x'\<rparr>"
  have m: "minimize_with lb call ft = Inr ?ft'"
    using p o w by (simp add: minimize_with_def Let_def)
  show ?thesis
    using m a c lx by (intro exI[of _ ?ft']) simp
qed

lemma total_cts_unused_simps [simp]:
  "par_use (parameters_dict (total_cts_unused ft) k)
     = (k \<noteq> Total_cts \<and> par_use (parameters_dict ft k))"
  "par_p0 (parameters_dict (total_cts_unused ft) k) = par_p0 (parameters_dict ft k)"
  "par_scale (parameters_dict (total_cts_unused ft) k) = par_scale (parameters_dict ft k)"
  by (simp_all add: total_cts_unused_def)

text \<open>
  C7. When the minimiser returns a vector of the shape of its start vector, both drivers
  finish and set the fitted value of every parameter of \<^verbatim>\<open>_parameters_order\<close>: a parameter
  in use gets its returned coordinate times its scale, any other parameter gets its
  configured value \<open>p0\<close>. In \<^verbatim>\<open>maximize_likelyhood\<close> \<open>total_cts\<close> counts as not in use. So a
  parameter fixed at \<open>v\<close> is reported with the fitted value \<open>v\<close>.
\<close>

theorem minimize_writes_back:
  "(get_p0 ft = Inr p0
      \<and> op_minimize lb (\<lambda>params. chi_square_call (with_generator lb ft) params True)
           p0 (bnds_of ft) = Inr x
      \<and> length x = length p0
    \<longrightarrow> (\<exists>ft'. minimize_chi2 lb ft = Inr ft'
           \<and> (\<forall>j < length parameters_order.
                 par_value (parameters_dict ft' (parameters_order ! j))
                   = Some (if par_use (parameters_dict ft (parameters_order ! j))
                           then x ! length (filter (\<lambda>k. par_use (parameters_dict ft k))
                                              (take j parameters_order))
                                * par_scale (parameters_dict ft (parameters_order ! j))
                           else par_p0 (parameters_dict ft (parameters_order ! j))))))
   \<and> (get_p0 (total_cts_unused ft) = Inr p0
      \<and> op_minimize lb
           (\<lambda>params. log_likelihood_call (with_generator lb (total_cts_unused ft)) params True)
           p0 (bnds_of (total_cts_unused ft)) = Inr x
      \<and> length x = length p0
    \<longrightarrow> (\<exists>ft'. maximize_likelyhood lb ft = Inr ft'
           \<and> (\<forall>j < length parameters_order.
                 par_value (parameters_dict ft' (parameters_order ! j))
                   = Some (if parameters_order ! j \<noteq> Total_cts
                              \<and> par_use (parameters_dict ft (parameters_order ! j))
                           then x ! length (filter (\<lambda>k. k \<noteq> Total_cts
                                                      \<and> par_use (parameters_dict ft k))
                                              (take j parameters_order))
                                * par_scale (parameters_dict ft (parameters_order ! j))
                           else par_p0 (parameters_dict ft (parameters_order ! j))))))"
proof (intro conjI impI)
  assume h: "get_p0 ft = Inr p0
      \<and> op_minimize lb (\<lambda>params. chi_square_call (with_generator lb ft) params True)
           p0 (bnds_of ft) = Inr x
      \<and> length x = length p0"
  then have l: "length (filter (\<lambda>k. par_use (parameters_dict ft k)) parameters_order)
                  \<le> length x"
    using get_p0_length[of ft p0] by simp
  from h minimize_with_ok[of ft p0 lb chi_square_call x, OF _ _ l]
  show "\<exists>ft'. minimize_chi2 lb ft = Inr ft'
           \<and> (\<forall>j < length parameters_order.
                 par_value (parameters_dict ft' (parameters_order ! j))
                   = Some (if par_use (parameters_dict ft (parameters_order ! j))
                           then x ! length (filter (\<lambda>k. par_use (parameters_dict ft k))
                                              (take j parameters_order))
                                * par_scale (parameters_dict ft (parameters_order ! j))
                           else par_p0 (parameters_dict ft (parameters_order ! j))))"
    unfolding minimize_chi2_def by blast
next
  let ?ft0 = "total_cts_unused ft"
  assume h: "get_p0 ?ft0 = Inr p0
      \<and> op_minimize lb (\<lambda>params. log_likelihood_call (with_generator lb ?ft0) params True)
           p0 (bnds_of ?ft0) = Inr x
      \<and> length x = length p0"
  then have l: "length (filter (\<lambda>k. par_use (parameters_dict ?ft0 k)) parameters_order)
                  \<le> length x"
    using get_p0_length[of ?ft0 p0] by simp
  from h minimize_with_ok[of ?ft0 p0 lb log_likelihood_call x, OF _ _ l]
  obtain ft' where m: "minimize_with lb log_likelihood_call ?ft0 = Inr ft'"
    and a: "\<forall>j < length parameters_order.
                par_value (parameters_dict ft' (parameters_order ! j))
                  = Some (if par_use (parameters_dict ?ft0 (parameters_order ! j))
                          then x ! length (filter (\<lambda>k. par_use (parameters_dict ?ft0 k))
                                             (take j parameters_order))
                               * par_scale (parameters_dict ?ft0 (parameters_order ! j))
                          else par_p0 (parameters_dict ?ft0 (parameters_order ! j)))"
    by blast
  show "\<exists>ft'. maximize_likelyhood lb ft = Inr ft'
           \<and> (\<forall>j < length parameters_order.
                 par_value (parameters_dict ft' (parameters_order ! j))
                   = Some (if parameters_order ! j \<noteq> Total_cts
                              \<and> par_use (parameters_dict ft (parameters_order ! j))
                           then x ! length (filter (\<lambda>k. k \<noteq> Total_cts
                                                      \<and> par_use (parameters_dict ft k))
                                              (take j parameters_order))
                                * par_scale (parameters_dict ft (parameters_order ! j))
                           else par_p0 (parameters_dict ft (parameters_order ! j))))"
    using m a unfolding maximize_likelyhood_def by (intro exI[of _ ft']) simp
qed

lemmas ft_defs = ft_ex_def pd_ex_def gen_ex_def lb_ex_def parameters_order_def pattern_keys_def
  get_p0_def bnds_of_def simulations_of_def with_generator_def total_cts_unused_def

theorem minimize_writes_back_witness:
  "get_p0 ft_ex = Inr [1 / 2, 5, 10, 1 / 4]
   \<and> op_minimize lb_ex (\<lambda>params. chi_square_call (with_generator lb_ex ft_ex) params True)
        [1 / 2, 5, 10, 1 / 4] (bnds_of ft_ex) = Inr [3 / 2, 6, 11, 5 / 4]
   \<and> length [3 / 2, 6, 11, 5 / 4 :: real] = length [1 / 2, 5, 10, 1 / 4 :: real]
   \<and> (\<exists>ft'. minimize_chi2 lb_ex ft_ex = Inr ft'
         \<and> (\<forall>j < length parameters_order.
               par_value (parameters_dict ft' (parameters_order ! j))
                 = Some (if par_use (parameters_dict ft_ex (parameters_order ! j))
                         then [3 / 2, 6, 11, 5 / 4]
                                ! length (filter (\<lambda>k. par_use (parameters_dict ft_ex k))
                                            (take j parameters_order))
                              * par_scale (parameters_dict ft_ex (parameters_order ! j))
                         else par_p0 (parameters_dict ft_ex (parameters_order ! j)))))
   \<and> get_p0 (total_cts_unused ft_ex) = Inr [1 / 2, 5, 1 / 4]
   \<and> op_minimize lb_ex
        (\<lambda>params. log_likelihood_call (with_generator lb_ex (total_cts_unused ft_ex)) params True)
        [1 / 2, 5, 1 / 4] (bnds_of (total_cts_unused ft_ex)) = Inr [3 / 2, 6, 5 / 4]
   \<and> length [3 / 2, 6, 5 / 4 :: real] = length [1 / 2, 5, 1 / 4 :: real]
   \<and> (\<exists>ft'. maximize_likelyhood lb_ex ft_ex = Inr ft'
         \<and> (\<forall>j < length parameters_order.
               par_value (parameters_dict ft' (parameters_order ! j))
                 = Some (if parameters_order ! j \<noteq> Total_cts
                            \<and> par_use (parameters_dict ft_ex (parameters_order ! j))
                         then [3 / 2, 6, 5 / 4]
                                ! length (filter (\<lambda>k. k \<noteq> Total_cts
                                                    \<and> par_use (parameters_dict ft_ex k))
                                            (take j parameters_order))
                              * par_scale (parameters_dict ft_ex (parameters_order ! j))
                         else par_p0 (parameters_dict ft_ex (parameters_order ! j)))))
   \<and> map (\<lambda>k. par_value (parameters_dict (projr (minimize_chi2 lb_ex ft_ex)) k)) parameters_order
       = [Some 3, Some 3, Some 6, Some 110, Some 0, Some (5 / 4), Some (1 / 4), Some (1 / 4)]"
proof -
  have c1: "get_p0 ft_ex = Inr [1 / 2, 5, 10, 1 / 4]" by (simp add: ft_defs)
  have c2: "op_minimize lb_ex (\<lambda>params. chi_square_call (with_generator lb_ex ft_ex) params True)
        [1 / 2, 5, 10, 1 / 4] (bnds_of ft_ex) = Inr [3 / 2, 6, 11, 5 / 4]"
    by (simp add: lb_ex_def)
  have c3: "length [3 / 2, 6, 11, 5 / 4 :: real] = length [1 / 2, 5, 10, 1 / 4 :: real]" by simp
  have l1: "get_p0 (total_cts_unused ft_ex) = Inr [1 / 2, 5, 1 / 4]" by (simp add: ft_defs)
  have l2: "op_minimize lb_ex
        (\<lambda>params. log_likelihood_call (with_generator lb_ex (total_cts_unused ft_ex)) params True)
        [1 / 2, 5, 1 / 4] (bnds_of (total_cts_unused ft_ex)) = Inr [3 / 2, 6, 5 / 4]"
    by (simp add: lb_ex_def)
  have l3: "length [3 / 2, 6, 5 / 4 :: real] = length [1 / 2, 5, 1 / 4 :: real]" by simp
  have v: "map (\<lambda>k. par_value (parameters_dict (projr (minimize_chi2 lb_ex ft_ex)) k))
             parameters_order
       = [Some 3, Some 3, Some 6, Some 110, Some 0, Some (5 / 4), Some (1 / 4), Some (1 / 4)]"
    by (simp add: minimize_chi2_def minimize_with_def ft_defs Let_def)
  from minimize_writes_back[of ft_ex "[1 / 2, 5, 10, 1 / 4]" lb_ex "[3 / 2, 6, 11, 5 / 4]"]
       minimize_writes_back[of ft_ex "[1 / 2, 5, 1 / 4]" lb_ex "[3 / 2, 6, 5 / 4]"]
       c1 c2 c3 l1 l2 l3 v
  show ?thesis by blast
qed

subsection \<open>The likelihood\<close>

text \<open>
  C3. \<^verbatim>\<open>log_likelihood\<close> calls the generator with \<open>total_events = 1\<close> and, for a synthetic
  pattern of the data's shape whose valid cells are positive, returns minus the sum over the
  valid cells of \<open>observed * ln synthetic\<close>. \<^verbatim>\<open>maximize_likelyhood\<close> takes \<open>total_cts\<close> out of
  use before it builds the start vector: the start vector has one entry per parameter in use
  other than \<open>total_cts\<close>, and after the run \<open>total_cts\<close> is not in use and holds its \<open>p0\<close>.
\<close>

theorem log_likelihood_score:
  "(pattern_generator ft = Some gen
      \<and> length (gen dx dy phi ((1 - sum_list fractions_sims) # fractions_sims) 1 sigma)
          = length (data_pattern ft)
      \<and> list_all (\<lambda>(d, s). 0 < s)
          (valid_cells (data_pattern ft)
             (gen dx dy phi ((1 - sum_list fractions_sims) # fractions_sims) 1 sigma))
    \<longrightarrow> log_likelihood ft dx dy phi fractions_sims sigma
          = Inr (- sum_list (map (\<lambda>(d, s). d * ln s)
                   (valid_cells (data_pattern ft)
                      (gen dx dy phi ((1 - sum_list fractions_sims) # fractions_sims) 1 sigma)))))
   \<and> (get_p0 (total_cts_unused ft) = Inr p0
      \<and> op_minimize lb
           (\<lambda>params. log_likelihood_call (with_generator lb (total_cts_unused ft)) params True)
           p0 (bnds_of (total_cts_unused ft)) = Inr x
      \<and> length x = length p0
    \<longrightarrow> (\<exists>ft'. maximize_likelyhood lb ft = Inr ft'
           \<and> \<not> par_use (parameters_dict ft' Total_cts)
           \<and> par_value (parameters_dict ft' Total_cts) = Some (par_p0 (parameters_dict ft Total_cts))
           \<and> length p0
               = length (filter (\<lambda>k. k \<noteq> Total_cts \<and> par_use (parameters_dict ft k))
                           parameters_order)))"
proof (intro conjI impI)
  let ?cells = "valid_cells (data_pattern ft)
             (gen dx dy phi ((1 - sum_list fractions_sims) # fractions_sims) 1 sigma)"
  assume h: "pattern_generator ft = Some gen
      \<and> length (gen dx dy phi ((1 - sum_list fractions_sims) # fractions_sims) 1 sigma)
          = length (data_pattern ft)
      \<and> list_all (\<lambda>(d, s). 0 < s) ?cells"
  then have "\<not> list_ex (\<lambda>(d, s). s \<le> 0) ?cells"
    by (auto simp: list_ex_iff list_all_iff)
  with h show "log_likelihood ft dx dy phi fractions_sims sigma
          = Inr (- sum_list (map (\<lambda>(d, s). d * ln s) ?cells))"
    by (simp add: log_likelihood_def neg_log_likelihood_def Let_def)
next
  let ?ft0 = "total_cts_unused ft"
  assume h: "get_p0 ?ft0 = Inr p0
      \<and> op_minimize lb (\<lambda>params. log_likelihood_call (with_generator lb ?ft0) params True)
           p0 (bnds_of ?ft0) = Inr x
      \<and> length x = length p0"
  then have lp: "length p0 = length (filter (\<lambda>k. par_use (parameters_dict ?ft0 k)) parameters_order)"
    using get_p0_length[of ?ft0 p0] by simp
  then have l: "length (filter (\<lambda>k. par_use (parameters_dict ?ft0 k)) parameters_order)
                  \<le> length x"
    using h by simp
  from h minimize_with_ok[of ?ft0 p0 lb log_likelihood_call x, OF _ _ l]
  obtain ft' where m: "minimize_with lb log_likelihood_call ?ft0 = Inr ft'"
    and a: "\<forall>j < length parameters_order.
                par_value (parameters_dict ft' (parameters_order ! j))
                  = Some (if par_use (parameters_dict ?ft0 (parameters_order ! j))
                          then x ! length (filter (\<lambda>k. par_use (parameters_dict ?ft0 k))
                                             (take j parameters_order))
                               * par_scale (parameters_dict ?ft0 (parameters_order ! j))
                          else par_p0 (parameters_dict ?ft0 (parameters_order ! j)))"
    and u: "\<forall>k. par_use (parameters_dict ft' k) = par_use (parameters_dict ?ft0 k)"
    by blast
  have t: "parameters_order ! 3 = Total_cts" "3 < length parameters_order"
    by (simp_all add: parameters_order_def)
  have v: "par_value (parameters_dict ft' Total_cts) = Some (par_p0 (parameters_dict ft Total_cts))"
    using a[rule_format, OF t(2)] t(1) by simp
  show "\<exists>ft'. maximize_likelyhood lb ft = Inr ft'
           \<and> \<not> par_use (parameters_dict ft' Total_cts)
           \<and> par_value (parameters_dict ft' Total_cts) = Some (par_p0 (parameters_dict ft Total_cts))
           \<and> length p0
               = length (filter (\<lambda>k. k \<noteq> Total_cts \<and> par_use (parameters_dict ft k))
                           parameters_order)"
    using m u v lp unfolding maximize_likelyhood_def by (intro exI[of _ ft']) simp
qed

theorem log_likelihood_score_witness:
  "pattern_generator ft_ex = Some gen_ex
   \<and> length (gen_ex 0 0 0 ((1 - sum_list [1 / 4]) # [1 / 4]) 1 0) = length (data_pattern ft_ex)
   \<and> list_all (\<lambda>(d, s). 0 < s)
        (valid_cells (data_pattern ft_ex) (gen_ex 0 0 0 ((1 - sum_list [1 / 4]) # [1 / 4]) 1 0))
   \<and> log_likelihood ft_ex 0 0 0 [1 / 4] 0
        = Inr (- sum_list (map (\<lambda>(d, s). d * ln s)
                 (valid_cells (data_pattern ft_ex)
                    (gen_ex 0 0 0 ((1 - sum_list [1 / 4]) # [1 / 4]) 1 0))))
   \<and> log_likelihood ft_ex 0 0 0 [1 / 4] 0 = Inr (- (4 * ln 2))
   \<and> get_p0 (total_cts_unused ft_ex) = Inr [1 / 2, 5, 1 / 4]
   \<and> op_minimize lb_ex
        (\<lambda>params. log_likelihood_call (with_generator lb_ex (total_cts_unused ft_ex)) params True)
        [1 / 2, 5, 1 / 4] (bnds_of (total_cts_unused ft_ex)) = Inr [3 / 2, 6, 5 / 4]
   \<and> length [3 / 2, 6, 5 / 4 :: real] = length [1 / 2, 5, 1 / 4 :: real]
   \<and> (\<exists>ft'. maximize_likelyhood lb_ex ft_ex = Inr ft'
         \<and> \<not> par_use (parameters_dict ft' Total_cts)
         \<and> par_value (parameters_dict ft' Total_cts)
             = Some (par_p0 (parameters_dict ft_ex Total_cts))
         \<and> length [1 / 2, 5, 1 / 4 :: real]
             = length (filter (\<lambda>k. k \<noteq> Total_cts \<and> par_use (parameters_dict ft_ex k))
                         parameters_order))"
proof -
  have h1: "pattern_generator ft_ex = Some gen_ex" by (simp add: ft_ex_def)
  have h2: "length (gen_ex 0 0 0 ((1 - sum_list [1 / 4]) # [1 / 4]) 1 0)
              = length (data_pattern ft_ex)"
    by (simp add: ft_ex_def gen_ex_def)
  have h3: "list_all (\<lambda>(d, s). 0 < s)
        (valid_cells (data_pattern ft_ex) (gen_ex 0 0 0 ((1 - sum_list [1 / 4]) # [1 / 4]) 1 0))"
    by (simp add: ft_ex_def gen_ex_def valid_cells_def)
  have v: "- sum_list (map (\<lambda>(d, s). d * ln s)
                 (valid_cells (data_pattern ft_ex)
                    (gen_ex 0 0 0 ((1 - sum_list [1 / 4]) # [1 / 4]) 1 0))) = - (4 * ln 2)"
    by (simp add: ft_ex_def gen_ex_def valid_cells_def)
  have l1: "get_p0 (total_cts_unused ft_ex) = Inr [1 / 2, 5, 1 / 4]" by (simp add: ft_defs)
  have l2: "op_minimize lb_ex
        (\<lambda>params. log_likelihood_call (with_generator lb_ex (total_cts_unused ft_ex)) params True)
        [1 / 2, 5, 1 / 4] (bnds_of (total_cts_unused ft_ex)) = Inr [3 / 2, 6, 5 / 4]"
    by (simp add: lb_ex_def)
  have l3: "length [3 / 2, 6, 5 / 4 :: real] = length [1 / 2, 5, 1 / 4 :: real]" by simp
  from log_likelihood_score[of ft_ex gen_ex 0 0 0 "[1 / 4]" 0 "[1 / 2, 5, 1 / 4]" lb_ex
         "[3 / 2, 6, 5 / 4]"]
    h1 h2 h3 v l1 l2 l3
  show ?thesis by simp
qed

section \<open>The error estimate\<close>

lemma store_variance_ok:
  assumes "distinct ks"
    and "di + length (filter U ks) \<le> length variance"
    and "\<forall>k. par_use (pd k) = U k"
  shows "\<exists>pd'. store_variance ks pd variance di = Inr pd'
          \<and> (\<forall>j < length ks. U (ks ! j) \<longrightarrow>
                par_variance (pd' (ks ! j))
                  = Some (variance ! (di + length (filter U (take j ks)))))
          \<and> (\<forall>k. k \<notin> set ks \<or> \<not> U k \<longrightarrow> pd' k = pd k)
          \<and> (\<forall>k. par_use (pd' k) = U k)"
  using assms
proof (induction ks arbitrary: di pd)
  case Nil
  then show ?case by simp
next
  case (Cons k ks)
  from Cons.prems have d: "distinct ks" and kn: "k \<notin> set ks" by simp_all
  show ?case
  proof (cases "U k")
    case False
    have l: "di + length (filter U ks) \<le> length variance" using Cons.prems False by simp
    from Cons.IH[OF d l Cons.prems(3)] obtain pd' where
      w: "store_variance ks pd variance di = Inr pd'"
      and a: "\<forall>j < length ks. U (ks ! j) \<longrightarrow>
                par_variance (pd' (ks ! j))
                  = Some (variance ! (di + length (filter U (take j ks))))"
      and b: "\<forall>k'. k' \<notin> set ks \<or> \<not> U k' \<longrightarrow> pd' k' = pd k'"
      and c: "\<forall>k. par_use (pd' k) = U k"
      by blast
    have w': "store_variance (k # ks) pd variance di = Inr pd'"
      using w False Cons.prems(3) by simp
    have a': "par_variance (pd' ((k # ks) ! j))
                  = Some (variance ! (di + length (filter U (take j (k # ks)))))"
      if "j < length (k # ks)" "U ((k # ks) ! j)" for j
    proof (cases j)
      case 0
      with that False show ?thesis by simp
    next
      case (Suc j')
      with that a False show ?thesis by simp
    qed
    have b': "pd' k' = pd k'" if "k' \<notin> set (k # ks) \<or> \<not> U k'" for k'
      using that b by auto
    show ?thesis using w' a' b' c by blast
  next
    case True
    let ?pd = "pd(k := (pd k)\<lparr>par_variance := Some (variance ! di)\<rparr>)"
    have il: "di < length variance" using Cons.prems True by simp
    have l: "(di + 1) + length (filter U ks) \<le> length variance" using Cons.prems True by simp
    have inv: "\<forall>k. par_use (?pd k) = U k" using Cons.prems(3) by simp
    from Cons.IH[OF d l inv] obtain pd' where
      w: "store_variance ks ?pd variance (di + 1) = Inr pd'"
      and a: "\<forall>j < length ks. U (ks ! j) \<longrightarrow>
                par_variance (pd' (ks ! j))
                  = Some (variance ! ((di + 1) + length (filter U (take j ks))))"
      and b: "\<forall>k'. k' \<notin> set ks \<or> \<not> U k' \<longrightarrow> pd' k' = ?pd k'"
      and c: "\<forall>k. par_use (pd' k) = U k"
      by blast
    have w': "store_variance (k # ks) pd variance di = Inr pd'"
      using w True il Cons.prems(3) by simp
    have a': "par_variance (pd' ((k # ks) ! j))
                  = Some (variance ! (di + length (filter U (take j (k # ks)))))"
      if "j < length (k # ks)" "U ((k # ks) ! j)" for j
    proof (cases j)
      case 0
      have "pd' k = ?pd k" using b kn by blast
      with 0 show ?thesis by simp
    next
      case (Suc j')
      with that a True show ?thesis by simp
    qed
    have b': "pd' k' = pd k'" if "k' \<notin> set (k # ks) \<or> \<not> U k'" for k'
    proof -
      have "k' \<noteq> k" using that True by auto
      moreover have "pd' k' = ?pd k'" using that b by auto
      ultimately show ?thesis by simp
    qed
    show ?thesis using w' a' b' c by blast
  qed
qed

lemma scale_vector_length:
  "length x = length (filter (\<lambda>k. par_use (parameters_dict ft k)) parameters_order)
     \<Longrightarrow> length (scale_vector ft enable_scale (length x)) = length x"
  by (simp add: scale_vector_def get_p0_scale_def)

lemma scale_vector_nonzero:
  assumes "enable_scale \<longrightarrow>
             (\<forall>k \<in> set parameters_order. par_use (parameters_dict ft k) \<longrightarrow>
                par_scale (parameters_dict ft k) \<noteq> 0)"
  shows "0 \<notin> set (scale_vector ft enable_scale n)"
  using assms by (auto simp: scale_vector_def get_p0_scale_def)


lemma variance_vector:
  assumes "length hh_inv = n" "length sc = n"
  shows "map (\<lambda>(v, s). v * s) (zip (map sqrt (diag hh_inv)) sc)
           = map (\<lambda>i. sqrt (hh_inv ! i ! i) * sc ! i) [0..<n]"
  using assms by (auto simp: list_eq_iff_nth_eq diag_def)

text \<open>
  C8. For a fitted vector with one entry per parameter in use (and non-zero scales when
  scaling is enabled), \<^verbatim>\<open>get_variance_from_hessian\<close> takes the numeric Hessian of the chosen
  cost function at the vector divided by the scales, and inverts it as it is for the
  likelihood and times one half for chi-square. If the inversion fails, the result is the
  exception \<^verbatim>\<open>LinAlgError\<close>. Otherwise, for a non-negative diagonal, the i-th standard
  error is the square root of the i-th diagonal entry of the inverse times the i-th scale
  (one when scaling is off), and it is stored as the variance of the i-th parameter in use.
\<close>

theorem hessian_standard_errors:
  assumes func: "func = ''likelihood'' \<or> func = ''chi_square''"
    and lenx: "length x = length (filter (\<lambda>k. par_use (parameters_dict ft k)) parameters_order)"
    and nz: "enable_scale \<longrightarrow>
               (\<forall>k \<in> set parameters_order. par_use (parameters_dict ft k) \<longrightarrow>
                  par_scale (parameters_dict ft k) \<noteq> 0)"
    and hess: "nd_Hessian lb
                 (if func = ''likelihood'' then (\<lambda>xx. log_likelihood_call ft xx enable_scale)
                  else (\<lambda>xx. chi_square_call ft xx enable_scale))
                 (map (\<lambda>(v, s). v / s) (zip x (scale_vector ft enable_scale (length x))))
               = Inr hh"
  shows "(linalg_inv lb (if func = ''likelihood'' then hh else half hh) = None
          \<longrightarrow> get_variance_from_hessian lb ft x enable_scale func = Inl LinAlgError)
     \<and> (\<forall>hh_inv.
           linalg_inv lb (if func = ''likelihood'' then hh else half hh) = Some hh_inv
           \<and> length hh_inv = length x \<and> (\<forall>i < length x. 0 \<le> hh_inv ! i ! i)
          \<longrightarrow> (\<exists>ft'. get_variance_from_hessian lb ft x enable_scale func
                       = Inr (map (\<lambda>i. sqrt (hh_inv ! i ! i)
                                        * scale_vector ft enable_scale (length x) ! i)
                                [0..<length x], ft')
                 \<and> (\<forall>j < length parameters_order.
                       par_use (parameters_dict ft (parameters_order ! j)) \<longrightarrow>
                       par_variance (parameters_dict ft' (parameters_order ! j))
                         = Some (sqrt (hh_inv
                                        ! length (filter (\<lambda>k. par_use (parameters_dict ft k))
                                                    (take j parameters_order))
                                        ! length (filter (\<lambda>k. par_use (parameters_dict ft k))
                                                    (take j parameters_order)))
                                 * (if enable_scale
                                    then par_scale (parameters_dict ft (parameters_order ! j))
                                    else 1)))))"
proof -
  let ?U = "\<lambda>k. par_use (parameters_dict ft k)"
  let ?sc = "scale_vector ft enable_scale (length x)"
  let ?x1 = "map (\<lambda>(v, s). v / s) (zip x ?sc)"
  let ?f = "if func = ''likelihood'' then (\<lambda>xx. log_likelihood_call ft xx enable_scale)
            else (\<lambda>xx. chi_square_call ft xx enable_scale)"
  let ?H = "if func = ''likelihood'' then hh else half hh"
  have lsc: "length ?sc = length x" using lenx by (rule scale_vector_length)
  have b1: "broadcast x ?sc = Inr (zip x ?sc)" using lsc by (simp add: broadcast_def)
  have z: "\<not> list_ex (\<lambda>(v, s). s = 0) (zip x ?sc)"
    using scale_vector_nonzero[OF nz, of "length x"]
    by (auto simp: list_ex_iff dest: set_zip_rightD)
  have f: "\<not> (func \<noteq> ''likelihood'' \<and> func \<noteq> ''chi_square'')" using func by blast
  have lx1: "length ?x1 = length x" using lsc by simp
  have head: "get_variance_from_hessian lb ft x enable_scale func
      = (case linalg_inv lb ?H of
           None \<Rightarrow> Inl LinAlgError
         | Some hh_inv \<Rightarrow>
             if list_ex (\<lambda>d. d < 0) (diag hh_inv) then Inl FloatingPointError
             else
               (case broadcast (map sqrt (diag hh_inv)) ?sc of
                  Inl e \<Rightarrow> Inl e
                | Inr vs \<Rightarrow>
                    (let variance = map (\<lambda>(v, s). v * s) vs in
                     case store_variance parameters_order (parameters_dict ft) variance 0 of
                       Inl e \<Rightarrow> Inl e
                     | Inr pd \<Rightarrow>
                         Inr (variance,
                              ft\<lparr>parameters_dict := pd, fits_variance := Some variance\<rparr>))))"
  proof (cases "func = ''likelihood''")
    case True
    then show ?thesis
      unfolding get_variance_from_hessian_def
      using b1 z hess by (simp add: Let_def)
  next
    case False
    with func have c: "func = ''chi_square''" by blast
    show ?thesis
      unfolding get_variance_from_hessian_def
      using b1 z hess False c by (simp add: Let_def)
  qed
  have sing: "get_variance_from_hessian lb ft x enable_scale func = Inl LinAlgError"
    if "linalg_inv lb ?H = None"
    using that head by simp
  have ok: "\<exists>ft'. get_variance_from_hessian lb ft x enable_scale func
                       = Inr (map (\<lambda>i. sqrt (hh_inv ! i ! i) * ?sc ! i) [0..<length x], ft')
                 \<and> (\<forall>j < length parameters_order.
                       ?U (parameters_order ! j) \<longrightarrow>
                       par_variance (parameters_dict ft' (parameters_order ! j))
                         = Some (sqrt (hh_inv
                                        ! length (filter ?U (take j parameters_order))
                                        ! length (filter ?U (take j parameters_order)))
                                 * (if enable_scale
                                    then par_scale (parameters_dict ft (parameters_order ! j))
                                    else 1)))"
    if inv: "linalg_inv lb ?H = Some hh_inv" and lh: "length hh_inv = length x"
      and pos: "\<forall>i < length x. 0 \<le> hh_inv ! i ! i" for hh_inv
  proof -
    let ?var = "map (\<lambda>i. sqrt (hh_inv ! i ! i) * ?sc ! i) [0..<length x]"
    have d: "\<not> list_ex (\<lambda>d. d < 0) (diag hh_inv)"
      using pos lh by (auto simp: list_ex_iff diag_def)
    have b2: "broadcast (map sqrt (diag hh_inv)) ?sc = Inr (zip (map sqrt (diag hh_inv)) ?sc)"
      using lsc lh by (simp add: broadcast_def diag_def)
    have var: "map (\<lambda>(v, s). v * s) (zip (map sqrt (diag hh_inv)) ?sc) = ?var"
      using variance_vector[OF lh lsc] .
    have l0: "0 + length (filter ?U parameters_order) \<le> length ?var" using lenx by simp
    from store_variance_ok[OF distinct_parameters_order l0, of "parameters_dict ft"]
    obtain pd' where
      st: "store_variance parameters_order (parameters_dict ft) ?var 0 = Inr pd'"
      and a: "\<forall>j < length parameters_order. ?U (parameters_order ! j) \<longrightarrow>
                par_variance (pd' (parameters_order ! j))
                  = Some (?var ! (0 + length (filter ?U (take j parameters_order))))"
      by auto
    let ?ft' = "ft\<lparr>parameters_dict := pd', fits_variance := Some ?var\<rparr>"
    have g: "get_variance_from_hessian lb ft x enable_scale func = Inr (?var, ?ft')"
      using head inv d b2 var st by (simp add: Let_def)
    have e: "par_variance (parameters_dict ?ft' (parameters_order ! j))
               = Some (sqrt (hh_inv ! length (filter ?U (take j parameters_order))
                                    ! length (filter ?U (take j parameters_order)))
                       * (if enable_scale
                          then par_scale (parameters_dict ft (parameters_order ! j)) else 1))"
      if j: "j < length parameters_order" and u: "?U (parameters_order ! j)" for j
    proof -
      let ?i = "length (filter ?U (take j parameters_order))"
      have il: "?i < length x"
        using length_filter_take_less[OF j, of ?U] u lenx by simp
      have "?sc ! ?i = (if enable_scale
                          then par_scale (parameters_dict ft (parameters_order ! j)) else 1)"
        using scale_vector_nth[OF j u, of "length x" enable_scale] lenx by simp
      moreover have "?var ! ?i = sqrt (hh_inv ! ?i ! ?i) * ?sc ! ?i" using il by simp
      ultimately show ?thesis using a j u by simp
    qed
    show ?thesis using g e by (intro exI[of _ ?ft']) blast
  qed
  show ?thesis using sing ok by blast
qed

theorem hessian_standard_errors_witness:
  "(''chi_square'' = ''likelihood'' \<or> ''chi_square'' = ''chi_square'')
   \<and> length [6 :: real]
       = length (filter (\<lambda>k. par_use (parameters_dict ft_one k)) parameters_order)
   \<and> filter (\<lambda>k. par_use (parameters_dict ft_one k)) parameters_order = [Dx]
   \<and> par_scale (parameters_dict ft_one Dx) = 2
   \<and> nd_Hessian lb_ex
        (if ''chi_square'' = ''likelihood'' then (\<lambda>xx. log_likelihood_call ft_one xx True)
         else (\<lambda>xx. chi_square_call ft_one xx True))
        (map (\<lambda>(v, s). v / s) (zip [6] (scale_vector ft_one True (length [6 :: real]))))
       = Inr [[2]]
   \<and> linalg_inv lb_ex (if ''chi_square'' = ''likelihood'' then [[2]] else half [[2]])
       = Some [[1]]
   \<and> length [[1 :: real]] = length [6 :: real]
   \<and> 0 \<le> [[1 :: real]] ! 0 ! 0
   \<and> (\<exists>ft'. get_variance_from_hessian lb_ex ft_one [6] True ''chi_square''
               = Inr (map (\<lambda>i. sqrt ([[1]] ! i ! i)
                                * scale_vector ft_one True (length [6 :: real]) ! i)
                        [0..<length [6 :: real]], ft'))
   \<and> fst (projr (get_variance_from_hessian lb_ex ft_one [6] True ''chi_square'')) = [2]
   \<and> nd_Hessian lb_ex
        (if ''chi_square'' = ''likelihood'' then (\<lambda>xx. log_likelihood_call ft_one xx True)
         else (\<lambda>xx. chi_square_call ft_one xx True))
        (map (\<lambda>(v, s). v / s) (zip [0] (scale_vector ft_one True (length [0 :: real]))))
       = Inr [[0]]
   \<and> linalg_inv lb_ex (if ''chi_square'' = ''likelihood'' then [[0]] else half [[0]]) = None
   \<and> get_variance_from_hessian lb_ex ft_one [0] True ''chi_square'' = Inl LinAlgError"
proof -
  let ?f = "if ''chi_square'' = ''likelihood'' then (\<lambda>xx. log_likelihood_call ft_one xx True)
         else (\<lambda>xx. chi_square_call ft_one xx True)"
  have a1: "''chi_square'' = ''likelihood'' \<or> ''chi_square'' = ''chi_square''" by simp
  have a2: "length [6 :: real]
       = length (filter (\<lambda>k. par_use (parameters_dict ft_one k)) parameters_order)"
    by (simp add: ft_one_def ft_ex_def parameters_order_def)
  have a2': "length [0 :: real]
       = length (filter (\<lambda>k. par_use (parameters_dict ft_one k)) parameters_order)"
    by (simp add: ft_one_def ft_ex_def parameters_order_def)
  have a3: "True \<longrightarrow> (\<forall>k \<in> set parameters_order. par_use (parameters_dict ft_one k) \<longrightarrow>
                  par_scale (parameters_dict ft_one k) \<noteq> 0)"
    by (simp add: ft_one_def ft_ex_def pd_ex_def parameters_order_def)
  have sc: "scale_vector ft_one True (Suc 0) = [2]"
    by (simp add: scale_vector_def get_p0_scale_def ft_one_def ft_ex_def pd_ex_def
          parameters_order_def)
  have a4: "nd_Hessian lb_ex ?f
        (map (\<lambda>(v, s). v / s) (zip [6] (scale_vector ft_one True (length [6 :: real]))))
       = Inr [[2]]"
    by (simp add: sc lb_ex_def)
  have a4': "nd_Hessian lb_ex ?f
        (map (\<lambda>(v, s). v / s) (zip [0] (scale_vector ft_one True (length [0 :: real]))))
       = Inr [[0]]"
    by (simp add: sc lb_ex_def)
  have a5: "linalg_inv lb_ex (if ''chi_square'' = ''likelihood'' then [[2]] else half [[2]])
       = Some [[1]]"
    by (simp add: lb_ex_def half_def)
  have a5': "linalg_inv lb_ex (if ''chi_square'' = ''likelihood'' then [[0]] else half [[0]])
       = None"
    by (simp add: lb_ex_def half_def)
  have a6: "length [[1 :: real]] = length [6 :: real]" by simp
  have a7: "\<forall>i < length [6 :: real]. 0 \<le> [[1 :: real]] ! i ! i" by simp
  from hessian_standard_errors[OF a1 a2 a3 a4] a5 a6 a7
  obtain ft' where g: "get_variance_from_hessian lb_ex ft_one [6] True ''chi_square''
               = Inr (map (\<lambda>i. sqrt ([[1]] ! i ! i)
                                * scale_vector ft_one True (length [6 :: real]) ! i)
                        [0..<length [6 :: real]], ft')"
    by blast
  then have v: "fst (projr (get_variance_from_hessian lb_ex ft_one [6] True ''chi_square'')) = [2]"
    by (simp add: sc)
  from hessian_standard_errors[OF a1 a2' a3 a4'] a5'
  have s: "get_variance_from_hessian lb_ex ft_one [0] True ''chi_square'' = Inl LinAlgError"
    by blast
  have u: "filter (\<lambda>k. par_use (parameters_dict ft_one k)) parameters_order = [Dx]"
    "par_scale (parameters_dict ft_one Dx) = 2"
    by (simp_all add: ft_one_def ft_ex_def pd_ex_def parameters_order_def)
  have p: "0 \<le> [[1 :: real]] ! 0 ! 0" by simp
  show ?thesis using a1 a2 u a4 a5 a6 p g v a4' a5' s by blast
qed

end
